theory Spec2Isabelle
  imports Complex_Main "HOL-Library.Multiset"
begin

section \<open>Numbers, vectors and errors\<close>

text \<open>
  Python floats are modelled as exact reals: rounding, overflow, signed zeros and
  non-finite values are outside the model. What Python raises is a value of
  \<open>py_error\<close>; a function that can raise returns \<open>py_error + 'a\<close>.
  A two-element list \<open>[x, y]\<close> is a pair.
\<close>

type_synonym vec = "real \<times> real"

datatype py_error = ZeroDivisionError | ValueError

definition GRAVITY_CONSTANT :: real where
  "GRAVITY_CONSTANT = 66743 / 10"

definition SYSTEM_SCALE :: real where
  "SYSTEM_SCALE = 1 / 100"

definition COLLISION_DAMPENING :: real where
  "COLLISION_DAMPENING = 1 / 100"

text \<open>\<open>math.atan2(y, x)\<close> on reals, with \<open>atan2(0, 0) = 0\<close> and the value
  \<open>pi\<close> on the negative x axis.\<close>

definition atan2 :: "real \<Rightarrow> real \<Rightarrow> real" where
  "atan2 y x =
     (if 0 < x then arctan (y / x)
      else if x < 0 then (if 0 \<le> y then arctan (y / x) + pi else arctan (y / x) - pi)
      else if 0 < y then pi / 2
      else if y < 0 then - (pi / 2)
      else 0)"

section \<open>body.py: SystemBody\<close>

text \<open>
  The colour of a body is whatever the caller passed to the constructor, or a
  \<open>pygame.Color\<close> made by \<open>calc_blended_color\<close>; the model leaves its type
  \<open>'c\<close> open. pygame's conversions between a colour and its \<open>hsva\<close> tuple are not
  code of this repository: they are parameters (\<open>to_hsva\<close>, \<open>from_hsva\<close>).
\<close>

record 'c SystemBody =
  name :: string
  mass :: real
  radius :: real
  color :: 'c
  position :: vec
  velocity :: vec
  acceleration :: vec

record CollisionInfo =
  granularity :: int
  bias :: real
  impulse :: real
  reflect_dir :: vec

record GravityInfo =
  force :: real
  direction :: vec

record 'c color_ops =
  to_hsva :: "'c \<Rightarrow> real \<times> real \<times> real"
  from_hsva :: "real \<times> real \<times> real \<Rightarrow> 'c"

text \<open>\<open>SystemBody.__init__\<close>: stores its arguments; it has no check and no raise.\<close>

definition SystemBody_init ::
  "string \<Rightarrow> real \<Rightarrow> real \<Rightarrow> 'c \<Rightarrow> vec \<Rightarrow> vec \<Rightarrow> 'c SystemBody" where
  "SystemBody_init nm m r c pos vel =
     \<lparr>name = nm, mass = m, radius = r, color = c,
      position = (fst pos, snd pos), velocity = (fst vel, snd vel),
      acceleration = (0, 0)\<rparr>"

definition move :: "'c SystemBody \<Rightarrow> real \<Rightarrow> 'c SystemBody" where
  "move self delta =
     (let v = (fst (velocity self) + fst (acceleration self) * delta,
               snd (velocity self) + snd (acceleration self) * delta);
          p = (fst (position self) + fst v * delta, snd (position self) + snd v * delta)
      in self\<lparr>velocity := v, position := p, acceleration := (0, 0)\<rparr>)"

definition add_acceleration :: "'c SystemBody \<Rightarrow> vec \<Rightarrow> 'c SystemBody" where
  "add_acceleration self a =
     self\<lparr>acceleration := (fst (acceleration self) + fst a, snd (acceleration self) + snd a)\<rparr>"

definition calc_gravity_acceleration :: "'c SystemBody \<Rightarrow> 'c SystemBody \<Rightarrow> py_error + real" where
  "calc_gravity_acceleration self other =
     (let dist_x = fst (position other) - fst (position self);
          dist_y = snd (position other) - snd (position self);
          dist_sqr = dist_x ^ 2 + dist_y ^ 2
      in if dist_sqr = 0 then Inl ZeroDivisionError
         else Inr (GRAVITY_CONSTANT * mass other / dist_sqr))"

definition calc_gravity_at_point :: "'c SystemBody \<Rightarrow> vec \<Rightarrow> py_error + GravityInfo" where
  "calc_gravity_at_point self point =
     (let dist_x = fst point - fst (position self);
          dist_y = snd point - snd (position self);
          dist_sqr = max (dist_x ^ 2 + dist_y ^ 2) (radius self ^ 2);
          dist = sqrt dist_sqr
      in if dist_sqr = 0 then Inl ZeroDivisionError
         else if dist = 0 then Inl ZeroDivisionError
         else Inr \<lparr>force = GRAVITY_CONSTANT / dist_sqr,
                   direction = (dist_x / dist, dist_y / dist)\<rparr>)"

text \<open>The local variables of \<open>calc_collision_bias\<close> that the properties speak of.\<close>

definition rel_vel :: "'c SystemBody \<Rightarrow> 'c SystemBody \<Rightarrow> vec" where
  "rel_vel self other =
     (fst (velocity self) - fst (velocity other), snd (velocity self) - snd (velocity other))"

definition rel_pos :: "'c SystemBody \<Rightarrow> 'c SystemBody \<Rightarrow> vec" where
  "rel_pos self other =
     (fst (position self) - fst (position other), snd (position self) - snd (position other))"

definition rel_pos_mag :: "'c SystemBody \<Rightarrow> 'c SystemBody \<Rightarrow> real" where
  "rel_pos_mag self other = fst (rel_pos self other) ^ 2 + snd (rel_pos self other) ^ 2"

definition intersection :: "'c SystemBody \<Rightarrow> 'c SystemBody \<Rightarrow> real" where
  "intersection self other = radius self + radius other - sqrt (rel_pos_mag self other)"

definition col_normal :: "'c SystemBody \<Rightarrow> 'c SystemBody \<Rightarrow> vec" where
  "col_normal self other =
     (fst (rel_pos self other) / rel_pos_mag self other,
      snd (rel_pos self other) / rel_pos_mag self other)"

definition rel_vel_n :: "'c SystemBody \<Rightarrow> 'c SystemBody \<Rightarrow> real" where
  "rel_vel_n self other =
     fst (rel_vel self other) * fst (col_normal self other)
     + snd (rel_vel self other) * snd (col_normal self other)"

definition rel_vel_mag :: "'c SystemBody \<Rightarrow> 'c SystemBody \<Rightarrow> real" where
  "rel_vel_mag self other = sqrt (fst (rel_vel self other) ^ 2 + snd (rel_vel self other) ^ 2)"

text \<open>
  \<open>calc_collision_bias\<close>, in the order of the source: the overlap test, the division
  by \<open>rel_pos_mag\<close>, the test of the normal velocity, the divisions of the impulse, the
  division by \<open>rel_vel_mag\<close>, the division of the bias. Each division by zero is
  Python's \<open>ZeroDivisionError\<close>.
\<close>

definition calc_collision_bias ::
  "'c SystemBody \<Rightarrow> 'c SystemBody \<Rightarrow> py_error + CollisionInfo option" where
  "calc_collision_bias self other =
     (if intersection self other < 0 then Inr None
      else if rel_pos_mag self other = 0 then Inl ZeroDivisionError
      else if rel_vel_n self other \<ge> 0 then Inr None
      else if mass self = 0 \<or> mass other = 0 then Inl ZeroDivisionError
      else if 1 / mass self + 1 / mass other = 0 then Inl ZeroDivisionError
      else
        let imp0 = - 2 * rel_vel_n self other / (1 / mass self + 1 / mass other);
            imp1 = imp0 * (mass other / mass self);
            imp2 = imp1 * COLLISION_DAMPENING;
            imp3 = imp2 / SYSTEM_SCALE
        in if rel_vel_mag self other = 0 then Inl ZeroDivisionError
           else
             let rel_vel_normalized =
                   (fst (rel_vel self other) / rel_vel_mag self other,
                    snd (rel_vel self other) / rel_vel_mag self other);
                 reflection =
                   (- fst rel_vel_normalized + 2 * rel_vel_n self other * fst (col_normal self other),
                    - snd rel_vel_normalized + 2 * rel_vel_n self other * snd (col_normal self other))
             in if mass self + mass other = 0 then Inl ZeroDivisionError
                else Inr (Some \<lparr>granularity = 10,
                                 bias = mass self / (mass self + mass other),
                                 impulse = imp3,
                                 reflect_dir = reflection\<rparr>))"

definition calc_blended_color ::
  "'c color_ops \<Rightarrow> 'c SystemBody \<Rightarrow> 'c SystemBody \<Rightarrow> real \<Rightarrow> 'c" where
  "calc_blended_color ops self other b =
     (let hsl_self = to_hsva ops (color self);
          hsl_other = to_hsva ops (color other);
          hue = fst hsl_self * b + fst hsl_other * (1 - b);
          sat = fst (snd hsl_self) * b + fst (snd hsl_other) * (1 - b);
          light = snd (snd hsl_self) * b + snd (snd hsl_other) * (1 - b)
      in from_hsva ops (hue, sat, light))"

text \<open>The magnitude of a vector, and the squared distance from a body's centre to a
  point (\<open>dist_x**2 + dist_y**2\<close> in \<open>calc_gravity_at_point\<close>, before the floor).\<close>

definition vec_mag :: "vec \<Rightarrow> real" where
  "vec_mag v = sqrt (fst v ^ 2 + snd v ^ 2)"

definition point_dist_sqr :: "'c SystemBody \<Rightarrow> vec \<Rightarrow> real" where
  "point_dist_sqr self point =
     (fst point - fst (position self)) ^ 2 + (snd point - snd (position self)) ^ 2"

section \<open>system.py: SystemBodyPool\<close>

text \<open>
  Bodies are Python objects: the pool's list holds references, \<open>==\<close> on bodies is
  identity (the class defines no \<open>__eq__\<close>), and a body is mutated in place. The model
  has an explicit store: \<open>heap\<close> is the list of body objects, an address is an index
  into it, a new object is appended, and \<open>bodies\<close> is the pool's list of addresses.
  The sets of bodies of \<open>update_system\<close> are lists without repetition, in the order
  of insertion (Python iterates a set in an order of its own; removing the bodies of a
  set from the list does not depend on it).
\<close>

type_synonym addr = nat

record 'c UpdateInfo =
  new_color :: 'c
  new_mass :: real
  new_radius :: real
  new_position :: vec
  due_acceleration :: vec
  affectors :: "(addr \<times> CollisionInfo) list"
  affected :: addr

text \<open>A surface is the list of the cells painted on it, in the order painted:
  the left and top pixel of the cell and the grey level passed to
  \<open>pygame.draw.rect\<close>. A new surface has no cell painted.\<close>

type_synonym surface = "(nat \<times> nat \<times> int) list"

record 'c SystemBodyPool =
  heap :: "'c SystemBody list"
  bodies :: "addr list"
  center :: vec
  heatmap :: "real list list"
  heatmap_active :: bool
  heatmap_update_time :: real
  heatmap_surface :: "surface option"

record resolution =
  bodies_to_remove :: "addr list"
  bodies_to_merge :: "addr list"
  body_merge_info :: "(addr \<times> addr) list"

record view_rect =
  rect_x :: int
  rect_y :: int
  rect_width :: int
  rect_height :: int

definition HEATMAP_CELL_SIZE :: int where
  "HEATMAP_CELL_SIZE = 10"

definition HEATMAP_UPDATE_INTERVAL :: real where
  "HEATMAP_UPDATE_INTERVAL = 15"

definition SystemBodyPool_init :: "'c SystemBodyPool" where
  "SystemBodyPool_init =
     \<lparr>heap = [], bodies = [], center = (0, 0), heatmap = [], heatmap_active = True,
      heatmap_update_time = 0, heatmap_surface = None\<rparr>"

text \<open>\<open>add_body\<close> of a body that is not yet an object of the store.\<close>

definition add_body :: "'c SystemBodyPool \<Rightarrow> 'c SystemBody \<Rightarrow> 'c SystemBodyPool" where
  "add_body pool body =
     pool\<lparr>heap := heap pool @ [body], bodies := bodies pool @ [length (heap pool)]\<rparr>"

definition move_all :: "'c SystemBodyPool \<Rightarrow> real \<Rightarrow> 'c SystemBodyPool" where
  "move_all pool delta =
     pool\<lparr>heap := fold (\<lambda>b h. h[b := move (h ! b) delta]) (bodies pool) (heap pool)\<rparr>"

subsection \<open>\<open>update_system\<close>: the loop over affected and affector\<close>

text \<open>The gravity of \<open>affector\<close> \<open>j\<close> on \<open>affected\<close> \<open>i\<close>, added to the body in
  place (\<open>calc_gravity_acceleration\<close>, the angle, \<open>add_acceleration\<close>).\<close>

definition apply_gravity ::
  "'c SystemBody list \<Rightarrow> addr \<Rightarrow> addr \<Rightarrow> py_error + 'c SystemBody list" where
  "apply_gravity h i j =
     (case calc_gravity_acceleration (h ! i) (h ! j) of
        Inl e \<Rightarrow> Inl e
      | Inr a \<Rightarrow>
          let affect_angle =
                atan2 (snd (position (h ! i)) - snd (position (h ! j)))
                      (fst (position (h ! i)) - fst (position (h ! j)));
              accel_vector = (- a * cos affect_angle, - a * sin affect_angle)
          in Inr (h[i := add_acceleration (h ! i) accel_vector]))"

text \<open>The inner loop for one \<open>affected\<close> body \<open>i\<close>: after the gravity, a collision
  is appended to the list of affectors.\<close>

fun gather ::
  "addr \<Rightarrow> addr list \<Rightarrow> 'c SystemBody list \<Rightarrow> (addr \<times> CollisionInfo) list
     \<Rightarrow> py_error + ('c SystemBody list \<times> (addr \<times> CollisionInfo) list)" where
  "gather i [] h affs = Inr (h, affs)"
| "gather i (j # js) h affs =
     (if i = j then gather i js h affs
      else
        case apply_gravity h i j of
          Inl e \<Rightarrow> Inl e
        | Inr h' \<Rightarrow>
            (case calc_collision_bias (h' ! i) (h' ! j) of
               Inl e \<Rightarrow> Inl e
             | Inr None \<Rightarrow> gather i js h' affs
             | Inr (Some col_info) \<Rightarrow> gather i js h' (affs @ [(j, col_info)])))"

definition fresh_update :: "'c SystemBody list \<Rightarrow> addr \<Rightarrow> 'c UpdateInfo" where
  "fresh_update h i =
     \<lparr>new_color = color (h ! i), new_mass = mass (h ! i), new_radius = radius (h ! i),
      new_position = position (h ! i), due_acceleration = (0, 0), affectors = [],
      affected = i\<rparr>"

text \<open>The outer loop: \<open>all\<close> is \<open>self.bodies\<close>, the second list what is left of it.\<close>

fun collect ::
  "addr list \<Rightarrow> addr list \<Rightarrow> 'c SystemBody list \<Rightarrow> 'c UpdateInfo list
     \<Rightarrow> py_error + ('c SystemBody list \<times> 'c UpdateInfo list)" where
  "collect all [] h pending = Inr (h, pending)"
| "collect all (i # rest) h pending =
     (case gather i all h [] of
        Inl e \<Rightarrow> Inl e
      | Inr (h', affs) \<Rightarrow>
          collect all rest h'
            (if length affs > 0 then pending @ [(fresh_update h i)\<lparr>affectors := affs\<rparr>]
             else pending))"

subsection \<open>\<open>update_system\<close>: the loop over the pending updates\<close>

text \<open>One pair \<open>(affector, col_info)\<close> of one update. The three \<open>continue\<close>s of the
  source are the three results that leave the update as it is.\<close>

definition weak_reflection :: "CollisionInfo \<Rightarrow> bool" where
  "weak_reflection col_info =
     (let reflection_theta = atan2 (snd (reflect_dir col_info)) (fst (reflect_dir col_info))
      in \<bar>reflection_theta\<bar> \<ge> pi - 1 / 20 \<or> \<bar>reflection_theta\<bar> < 1 / 20
         \<or> impulse col_info < 10)"

definition resolve_one ::
  "'c color_ops \<Rightarrow> 'c SystemBody list \<Rightarrow> addr \<times> CollisionInfo
     \<Rightarrow> resolution \<times> 'c UpdateInfo \<Rightarrow> resolution \<times> 'c UpdateInfo" where
  "resolve_one ops h pair st =
     (let affector = fst pair; col_info = snd pair; rs = fst st; this_update = snd st
      in if affected this_update = affector then (rs, this_update)
         else if bias col_info < 1 / 10 then
           (rs\<lparr>bodies_to_remove := List.insert (affected this_update) (bodies_to_remove rs)\<rparr>,
            this_update)
         else if weak_reflection col_info \<and> affected this_update \<in> set (bodies_to_merge rs)
           then (rs, this_update)
         else
           (if weak_reflection col_info then
              rs\<lparr>bodies_to_merge :=
                    List.insert affector
                      (List.insert (affected this_update) (bodies_to_merge rs)),
                  body_merge_info := body_merge_info rs @ [(affected this_update, affector)]\<rparr>
            else rs,
            this_update
              \<lparr>new_mass := new_mass this_update * bias col_info
                   + mass (h ! affector) * (1 - bias col_info),
               new_radius := new_radius this_update * bias col_info
                   + radius (h ! affector) * (1 - bias col_info),
               due_acceleration :=
                 (fst (due_acceleration this_update)
                    + impulse col_info * fst (reflect_dir col_info),
                  snd (due_acceleration this_update)
                    + impulse col_info * snd (reflect_dir col_info)),
               new_color :=
                 calc_blended_color ops (h ! affected this_update) (h ! affector)
                   (bias col_info)\<rparr>))"

fun resolve_all ::
  "'c color_ops \<Rightarrow> 'c SystemBody list \<Rightarrow> 'c UpdateInfo list \<Rightarrow> resolution
     \<Rightarrow> resolution \<times> 'c UpdateInfo list" where
  "resolve_all ops h [] rs = (rs, [])"
| "resolve_all ops h (u # us) rs =
     (let st = fold (resolve_one ops h) (affectors u) (rs, u);
          r = resolve_all ops h us (fst st)
      in (fst r, snd st # snd r))"

subsection \<open>\<open>update_system\<close>: applying, merging, removing, adding\<close>

text \<open>\<open>_UpdateInfo.apply\<close>.\<close>

definition apply_update :: "'c UpdateInfo \<Rightarrow> 'c SystemBody list \<Rightarrow> 'c SystemBody list" where
  "apply_update u h =
     h[affected u := (h ! affected u)
         \<lparr>color := new_color u, mass := new_mass u, radius := new_radius u,
          acceleration := due_acceleration u\<rparr>]"

definition apply_all ::
  "addr list \<Rightarrow> 'c UpdateInfo list \<Rightarrow> 'c SystemBody list \<Rightarrow> 'c SystemBody list" where
  "apply_all to_merge pending h =
     fold (\<lambda>u h. if affected u \<in> set to_merge then h else apply_update u h) pending h"

text \<open>The body made of a merge pair; \<open>new_mass\<close> is not zero where it is called.\<close>

definition merged_body :: "'c color_ops \<Rightarrow> 'c SystemBody \<Rightarrow> 'c SystemBody \<Rightarrow> 'c SystemBody" where
  "merged_body ops body1 body2 =
     (let new_mass = mass body1 + mass body2;
          new_radius = radius body1 + radius body2;
          new_color = calc_blended_color ops body1 body2 (1 / 2);
          new_position =
            ((fst (position body1) * mass body1 + fst (position body2) * mass body2) / new_mass,
             (snd (position body1) * mass body1 + snd (position body2) * mass body2) / new_mass);
          new_velocity =
            ((fst (velocity body1) * mass body1 + fst (velocity body2) * mass body2) / new_mass,
             (snd (velocity body1) * mass body1 + snd (velocity body2) * mass body2) / new_mass)
      in SystemBody_init (name body1 @ ''_'' @ name body2) new_mass new_radius new_color
           new_position new_velocity)"

fun merge_all ::
  "'c color_ops \<Rightarrow> (addr \<times> addr) list \<Rightarrow> 'c SystemBody list \<Rightarrow> addr list \<Rightarrow> addr list
     \<Rightarrow> py_error + ('c SystemBody list \<times> addr list \<times> addr list)" where
  "merge_all ops [] h to_remove to_add = Inr (h, to_remove, to_add)"
| "merge_all ops (pair # rest) h to_remove to_add =
     (if mass (h ! fst pair) + mass (h ! snd pair) = 0 then Inl ZeroDivisionError
      else merge_all ops rest (h @ [merged_body ops (h ! fst pair) (h ! snd pair)])
             (List.insert (snd pair) (List.insert (fst pair) to_remove))
             (to_add @ [length h]))"

text \<open>\<open>self.bodies.remove(body)\<close> for each body to remove: \<open>list.remove\<close> deletes the
  first occurrence and raises \<open>ValueError\<close> when there is none.\<close>

fun remove_all :: "addr list \<Rightarrow> addr list \<Rightarrow> py_error + addr list" where
  "remove_all [] bs = Inr bs"
| "remove_all (r # rs) bs =
     (if r \<in> set bs then remove_all rs (remove1 r bs) else Inl ValueError)"

definition empty_resolution :: resolution where
  "empty_resolution = \<lparr>bodies_to_remove = [], bodies_to_merge = [], body_merge_info = []\<rparr>"

definition update_system :: "'c color_ops \<Rightarrow> 'c SystemBodyPool \<Rightarrow> py_error + 'c SystemBodyPool" where
  "update_system ops pool =
     (case collect (bodies pool) (bodies pool) (heap pool) [] of
        Inl e \<Rightarrow> Inl e
      | Inr (h1, pending) \<Rightarrow>
          let res = resolve_all ops h1 pending empty_resolution;
              h2 = apply_all (bodies_to_merge (fst res)) (snd res) h1
          in case merge_all ops (body_merge_info (fst res)) h2 (bodies_to_remove (fst res)) [] of
               Inl e \<Rightarrow> Inl e
             | Inr (h3, to_remove, to_add) \<Rightarrow>
                 (case remove_all to_remove (bodies pool) of
                    Inl e \<Rightarrow> Inl e
                  | Inr bs \<Rightarrow> Inr (pool\<lparr>heap := h3, bodies := bs @ to_add\<rparr>)))"

subsection \<open>\<open>update_heatmap\<close> and \<open>create_heatmap_surface\<close>\<close>

text \<open>Python's \<open>int(x)\<close> of a float truncates towards zero; \<open>range(start, stop, step)\<close>
  for a positive step.\<close>

definition int_trunc :: "real \<Rightarrow> int" where
  "int_trunc x = (if 0 \<le> x then \<lfloor>x\<rfloor> else \<lceil>x\<rceil>)"

definition py_range :: "int \<Rightarrow> int \<Rightarrow> int \<Rightarrow> int list" where
  "py_range start stop step =
     map (\<lambda>k. start + step * int k) [0 ..< nat ((stop - start + step - 1) div step)]"

text \<open>The sum of the forces of all bodies at a point, one row of cells, and the rows.
  The point of a cell divides by \<open>SYSTEM_SCALE * scale\<close>.\<close>

fun field_at ::
  "'c SystemBody list \<Rightarrow> addr list \<Rightarrow> vec \<Rightarrow> real \<Rightarrow> py_error + real" where
  "field_at h [] point total_accel = Inr total_accel"
| "field_at h (b # bs) point total_accel =
     (case calc_gravity_at_point (h ! b) point of
        Inl e \<Rightarrow> Inl e
      | Inr new_info \<Rightarrow> field_at h bs point (total_accel + force new_info))"

fun heatmap_row ::
  "'c SystemBodyPool \<Rightarrow> real \<Rightarrow> view_rect \<Rightarrow> int \<Rightarrow> int list \<Rightarrow> py_error + real list" where
  "heatmap_row pool scale vr y [] = Inr []"
| "heatmap_row pool scale vr y (x # xs) =
     (if SYSTEM_SCALE * scale = 0 then Inl ZeroDivisionError
      else
        let point =
              (real_of_int (x - rect_width vr div 2) / (SYSTEM_SCALE * scale)
                 + real_of_int (rect_x vr),
               real_of_int (y - rect_height vr div 2) / (SYSTEM_SCALE * scale)
                 + real_of_int (rect_y vr))
        in case field_at (heap pool) (bodies pool) point 0 of
             Inl e \<Rightarrow> Inl e
           | Inr total_accel \<Rightarrow>
               (case heatmap_row pool scale vr y xs of
                  Inl e \<Rightarrow> Inl e
                | Inr row \<Rightarrow> Inr (total_accel # row)))"

fun heatmap_rows ::
  "'c SystemBodyPool \<Rightarrow> real \<Rightarrow> view_rect \<Rightarrow> int list \<Rightarrow> py_error + real list list" where
  "heatmap_rows pool scale vr [] = Inr []"
| "heatmap_rows pool scale vr (y # ys) =
     (case heatmap_row pool scale vr y
             (py_range (HEATMAP_CELL_SIZE div 2)
                (rect_width vr + HEATMAP_CELL_SIZE div 2) HEATMAP_CELL_SIZE) of
        Inl e \<Rightarrow> Inl e
      | Inr row \<Rightarrow>
          (case heatmap_rows pool scale vr ys of
             Inl e \<Rightarrow> Inl e
           | Inr rows \<Rightarrow> Inr (row # rows)))"

text \<open>\<open>accel_max\<close> and \<open>accel_min\<close> after the first pair of loops of
  \<open>create_heatmap_surface\<close>, which start from 0 and \<open>1e20\<close>.\<close>

definition accel_bounds :: "real list list \<Rightarrow> real \<times> real" where
  "accel_bounds hm =
     fold (\<lambda>row. fold (\<lambda>v b. (max (fst b) v, min (snd b) v)) row) hm (0, 10 ^ 20)"

text \<open>The second pair of loops: \<open>math.log(value)\<close> raises \<open>ValueError\<close> for a
  value that is not positive. The cell is painted with the grey level \<open>int(value * 255)\<close>:
  \<open>pygame.draw.rect\<close> raises \<open>ValueError\<close> (invalid color argument) for a level
  outside 0..255 and paints nothing.\<close>

fun draw_row ::
  "real \<Rightarrow> real \<Rightarrow> real \<Rightarrow> nat \<Rightarrow> nat \<Rightarrow> real list \<Rightarrow> surface \<Rightarrow> py_error + surface" where
  "draw_row data_range accel_min scaled_range y x [] s = Inr s"
| "draw_row data_range accel_min scaled_range y x (v # vs) s =
     (if v \<le> 0 then Inl ValueError
      else if data_range = 0 \<or> scaled_range = 0 then Inl ZeroDivisionError
      else
        let val = (ln v / data_range - accel_min) / scaled_range;
            col = int_trunc (val * 255)
        in if col < 0 \<or> 255 < col then Inl ValueError
           else draw_row data_range accel_min scaled_range y (Suc x) vs
                  (s @ [(x * nat HEATMAP_CELL_SIZE, y * nat HEATMAP_CELL_SIZE, col)]))"

fun draw_rows ::
  "real \<Rightarrow> real \<Rightarrow> real \<Rightarrow> nat \<Rightarrow> real list list \<Rightarrow> surface \<Rightarrow> py_error + surface" where
  "draw_rows data_range accel_min scaled_range y [] s = Inr s"
| "draw_rows data_range accel_min scaled_range y (row # rows) s =
     (case draw_row data_range accel_min scaled_range y 0 row s of
        Inl e \<Rightarrow> Inl e
      | Inr s' \<Rightarrow> draw_rows data_range accel_min scaled_range (Suc y) rows s')"

text \<open>\<open>create_heatmap_surface\<close> reads \<open>self._heatmap\<close> only; the rectangle it is
  given is not used.\<close>

definition create_heatmap_surface :: "real list list \<Rightarrow> py_error + surface" where
  "create_heatmap_surface hm =
     (let accel_max = fst (accel_bounds hm); accel_min = snd (accel_bounds hm)
      in if accel_min - accel_max = 0 then Inr []
         else if accel_min = 0 then Inl ZeroDivisionError
         else if accel_max / accel_min \<le> 0 then Inl ValueError
         else
           let data_range = ln (accel_max / accel_min)
           in if data_range = 0 then Inl ZeroDivisionError
              else draw_rows data_range (accel_min / data_range)
                     (accel_max / data_range - accel_min / data_range) 0 hm [])"

definition update_heatmap ::
  "'c SystemBodyPool \<Rightarrow> real \<Rightarrow> real \<Rightarrow> view_rect \<Rightarrow> py_error + 'c SystemBodyPool" where
  "update_heatmap pool delta scale vr =
     (if \<not> heatmap_active pool then Inr pool
      else if heatmap_update_time pool < HEATMAP_UPDATE_INTERVAL
        then Inr (pool\<lparr>heatmap_update_time := heatmap_update_time pool + delta\<rparr>)
      else
        case heatmap_rows pool scale vr
               (py_range (HEATMAP_CELL_SIZE div 2)
                  (rect_height vr + HEATMAP_CELL_SIZE div 2) HEATMAP_CELL_SIZE) of
          Inl e \<Rightarrow> Inl e
        | Inr hm \<Rightarrow>
            (case create_heatmap_surface hm of
               Inl e \<Rightarrow> Inl e
             | Inr s \<Rightarrow>
                 Inr (pool\<lparr>heatmap_update_time := 0, heatmap := hm,
                           heatmap_surface := Some s\<rparr>)))"

definition toggle_heatmap :: "'c SystemBodyPool \<Rightarrow> bool \<Rightarrow> 'c SystemBodyPool" where
  "toggle_heatmap pool state = pool\<lparr>heatmap_active := state\<rparr>"

subsection \<open>Predicates for the properties of the tick\<close>

text \<open>A body without its acceleration: what the loop over affected and affector reads
  of a body and never writes.\<close>

definition static :: "'c SystemBody \<Rightarrow> 'c SystemBody" where
  "static b = b\<lparr>acceleration := (0, 0)\<rparr>"

text \<open>A pool is well formed when its list holds no body twice and every reference
  points to an object of the store.\<close>

definition pool_ok :: "'c SystemBodyPool \<Rightarrow> bool" where
  "pool_ok pool \<longleftrightarrow>
     distinct (bodies pool) \<and> (\<forall>a \<in> set (bodies pool). a < length (heap pool))"

text \<open>A pending update as the loop over affected and affector leaves it: a snapshot of
  a body of the pool and the partners it collides with.\<close>

definition recorded :: "'c SystemBody list \<Rightarrow> addr list \<Rightarrow> 'c UpdateInfo \<Rightarrow> bool" where
  "recorded h all u \<longleftrightarrow>
     affected u \<in> set all
     \<and> new_mass u = mass (h ! affected u) \<and> new_radius u = radius (h ! affected u)
     \<and> new_color u = color (h ! affected u) \<and> due_acceleration u = (0, 0)
     \<and> affectors u \<noteq> []
     \<and> (\<forall>p \<in> set (affectors u). fst p \<in> set all \<and> fst p \<noteq> affected u
           \<and> calc_collision_bias (h ! affected u) (h ! fst p) = Inr (Some (snd p)))"

text \<open>Every merge pair has both bodies in the set of merged bodies; every body the
  resolution names is a body of a given set.\<close>

definition claimed :: "resolution \<Rightarrow> bool" where
  "claimed rs \<longleftrightarrow>
     (\<forall>p \<in> set (body_merge_info rs).
        fst p \<in> set (bodies_to_merge rs) \<and> snd p \<in> set (bodies_to_merge rs))"

definition addrs_in :: "addr set \<Rightarrow> resolution \<Rightarrow> bool" where
  "addrs_in S rs \<longleftrightarrow>
     set (bodies_to_remove rs) \<subseteq> S \<and> set (bodies_to_merge rs) \<subseteq> S
     \<and> (\<forall>p \<in> set (body_merge_info rs). fst p \<in> S \<and> snd p \<in> S)"

text \<open>The merge pairs of a tick: \<open>body_merge_info\<close> when the loop over the
  pending updates has ended.\<close>

definition merge_pairs :: "'c color_ops \<Rightarrow> 'c SystemBodyPool \<Rightarrow> (addr \<times> addr) list" where
  "merge_pairs ops pool =
     (case collect (bodies pool) (bodies pool) (heap pool) [] of
        Inl e \<Rightarrow> []
      | Inr (h1, pending) \<Rightarrow>
          body_merge_info (fst (resolve_all ops h1 pending empty_resolution)))"

subsection \<open>Concrete pools\<close>

text \<open>Bodies whose colour carries no information, for the scenarios below.\<close>

definition unit_ops :: "unit color_ops" where
  "unit_ops = \<lparr>to_hsva = (\<lambda>c. (0, 0, 0)), from_hsva = (\<lambda>t. ())\<rparr>"

text \<open>A heavy body at rest and a light one that overlaps it and moves towards it:
  the pool, the store after the loop over affected and affector, the pending updates
  before and after the loop over them, the resolution, and the merged body.\<close>

definition approach_A :: "unit SystemBody" where
  "approach_A = SystemBody_init ''A'' 1000 50 () (0, 0) (0, 0)"

definition approach_B :: "unit SystemBody" where
  "approach_B = SystemBody_init ''B'' 10 5 () (52, 0) (- 1, 0)"

definition approach_pool :: "unit SystemBodyPool" where
  "approach_pool = add_body (add_body SystemBodyPool_init approach_A) approach_B"

definition approach_h1 :: "unit SystemBody list" where
  "approach_h1 = [approach_A\<lparr>acceleration := (66743 / 2704, 0)\<rparr>,
                  approach_B\<lparr>acceleration := (- (6674300 / 2704), 0)\<rparr>]"

definition approach_pending :: "unit UpdateInfo list" where
  "approach_pending =
    [\<lparr>new_color = (), new_mass = 1000, new_radius = 50, new_position = (0, 0),
      due_acceleration = (0, 0),
      affectors = [(1, \<lparr>granularity = 10, bias = 100 / 101, impulse = 5 / 1313,
                  reflect_dir = (- (1351 / 1352), 0)\<rparr>)], affected = 0\<rparr>,
     \<lparr>new_color = (), new_mass = 10, new_radius = 5, new_position = (52, 0),
      due_acceleration = (0, 0),
      affectors = [(0, \<lparr>granularity = 10, bias = 1 / 101, impulse = 50000 / 1313,
                  reflect_dir = (1351 / 1352, 0)\<rparr>)], affected = 1\<rparr>]"

definition approach_resolution :: resolution where
  "approach_resolution =
     \<lparr>bodies_to_remove = [1], bodies_to_merge = [1, 0], body_merge_info = [(0, 1)]\<rparr>"

definition approach_pending' :: "unit UpdateInfo list" where
  "approach_pending' =
    [\<lparr>new_color = (), new_mass = 100010 / 101, new_radius = 5005 / 101, new_position = (0, 0),
      due_acceleration = (- (6755 / 1775176), 0),
      affectors = [(1, \<lparr>granularity = 10, bias = 100 / 101, impulse = 5 / 1313,
                  reflect_dir = (- (1351 / 1352), 0)\<rparr>)], affected = 0\<rparr>,
     \<lparr>new_color = (), new_mass = 10, new_radius = 5, new_position = (52, 0),
      due_acceleration = (0, 0),
      affectors = [(0, \<lparr>granularity = 10, bias = 1 / 101, impulse = 50000 / 1313,
                  reflect_dir = (1351 / 1352, 0)\<rparr>)], affected = 1\<rparr>]"

definition approach_merged :: "unit SystemBody" where
  "approach_merged = \<lparr>name = ''A_B'', mass = 1010, radius = 55, color = (),
     position = (52 / 101, 0), velocity = (- (1 / 101), 0), acceleration = (0, 0)\<rparr>"

text \<open>The two bodies of the scenario of the specification, both at rest, and the
  store after one tick.\<close>

definition scenario_A :: "unit SystemBody" where
  "scenario_A = SystemBody_init ''A'' 1000 50 () (0, 0) (0, 0)"

definition scenario_B :: "unit SystemBody" where
  "scenario_B = SystemBody_init ''B'' 10 5 () (52, 0) (0, 0)"

definition scenario_pool :: "unit SystemBodyPool" where
  "scenario_pool = add_body (add_body SystemBodyPool_init scenario_A) scenario_B"

definition scenario_h1 :: "unit SystemBody list" where
  "scenario_h1 = [scenario_A\<lparr>acceleration := (66743 / 2704, 0)\<rparr>,
                  scenario_B\<lparr>acceleration := (- (6674300 / 2704), 0)\<rparr>]"

subsection \<open>Gravity without collisions\<close>

text \<open>What \<open>apply_gravity\<close> adds to \<open>a\<close> for the partner \<open>b\<close> when their positions
  differ; the sum over the partners in a list; a pair of bodies that is apart and has no
  collision; a pool of such pairs; and the store after each body of \<open>done\<close> received
  the gravity of all others.\<close>

definition gravity_vector :: "'c SystemBody \<Rightarrow> 'c SystemBody \<Rightarrow> vec" where
  "gravity_vector a b =
     (let g = GRAVITY_CONSTANT * mass b
                / ((fst (position b) - fst (position a)) ^ 2
                   + (snd (position b) - snd (position a)) ^ 2);
          affect_angle = atan2 (snd (position a) - snd (position b))
                               (fst (position a) - fst (position b))
      in (- g * cos affect_angle, - g * sin affect_angle))"

definition total_gravity :: "'c SystemBody list \<Rightarrow> addr \<Rightarrow> addr list \<Rightarrow> vec" where
  "total_gravity h i js =
     (sum_list (map (\<lambda>j. fst (gravity_vector (h ! i) (h ! j))) (filter (\<lambda>j. j \<noteq> i) js)),
      sum_list (map (\<lambda>j. snd (gravity_vector (h ! i) (h ! j))) (filter (\<lambda>j. j \<noteq> i) js)))"

definition quiet :: "'c SystemBody list \<Rightarrow> addr \<Rightarrow> addr \<Rightarrow> bool" where
  "quiet h i j \<longleftrightarrow>
     position (h ! i) \<noteq> position (h ! j)
     \<and> calc_collision_bias (h ! i) (h ! j) = Inr None"

definition quiet_pool :: "'c SystemBody list \<Rightarrow> addr list \<Rightarrow> bool" where
  "quiet_pool h bs \<longleftrightarrow> (\<forall>i\<in>set bs. \<forall>j\<in>set bs. i \<noteq> j \<longrightarrow> quiet h i j)"

definition pulled :: "'c SystemBody list \<Rightarrow> addr list \<Rightarrow> addr list \<Rightarrow> 'c SystemBody list" where
  "pulled h all done =
     map (\<lambda>k. if k \<in> set done then add_acceleration (h ! k) (total_gravity h k all) else h ! k)
       [0 ..< length h]"




















text \<open>One body of radius \<open>1e-9\<close> at the origin, in a pool whose heatmap is due for a
  refresh, and a viewport of one cell whose centre is the origin.\<close>

definition dense_body :: "unit SystemBody" where
  "dense_body = SystemBody_init ''D'' 1 (1 / 10 ^ 9) () (0, 0) (0, 0)"

definition dense_pool :: "unit SystemBodyPool" where
  "dense_pool = (add_body SystemBodyPool_init dense_body)\<lparr>heatmap_update_time := 15\<rparr>"

definition dense_rect :: view_rect where
  "dense_rect = \<lparr>rect_x = 0, rect_y = 0, rect_width = 10, rect_height = 10\<rparr>"

section \<open>Properties of the body primitives\<close>

lemma vec_mag_div: "0 < d \<Longrightarrow> vec_mag (a / d, b / d) = sqrt (a ^ 2 + b ^ 2) / d"
proof -
  assume d: "0 < d"
  have "(a / d) ^ 2 + (b / d) ^ 2 = (a ^ 2 + b ^ 2) / d ^ 2"
    by (simp add: power_divide add_divide_distrib)
  then show ?thesis using d by (simp add: vec_mag_def real_sqrt_divide)
qed

lemma rel_pos_mag_zero: "rel_pos_mag a b = 0 \<longleftrightarrow> position a = position b"
  by (auto simp: rel_pos_mag_def rel_pos_def sum_power2_eq_zero_iff prod_eq_iff)

lemma rel_vel_mag_zero: "rel_vel_mag a b = 0 \<longleftrightarrow> rel_vel a b = (0, 0)"
  by (auto simp: rel_vel_mag_def sum_power2_eq_zero_iff prod_eq_iff)

lemma rel_vel_n_zero: "rel_vel a b = (0, 0) \<Longrightarrow> rel_vel_n a b = 0"
  by (simp add: rel_vel_n_def)

lemma rel_vel_n_sym: "rel_vel_n other self = rel_vel_n self other"
  by (simp add: rel_vel_n_def col_normal_def rel_vel_def rel_pos_def rel_pos_mag_def
      power2_commute[of "fst (position other)"] power2_commute[of "snd (position other)"])
     (simp add: field_simps)

subsection \<open>Gravity at a point\<close>

text \<open>
  C9, as the code has it. For a body with \<open>radius > 0\<close> and any point,
  \<open>calc_gravity_at_point\<close> returns; the squared distance it uses is floored at
  \<open>radius^2\<close>; the force is \<open>G\<close> over that floored squared distance; the direction
  is the displacement from the body to the point divided by the square root of the
  floored squared distance. That direction has magnitude 1 when the point is at least
  \<open>radius\<close> away from the centre, and magnitude \<open>distance / radius\<close>, below 1,
  when the point is inside the body.
\<close>

theorem calc_gravity_at_point_floored:
  assumes r: "0 < radius self"
  shows "\<exists>g. calc_gravity_at_point self point = Inr g
    \<and> force g = GRAVITY_CONSTANT / max (point_dist_sqr self point) (radius self ^ 2)
    \<and> radius self ^ 2 \<le> max (point_dist_sqr self point) (radius self ^ 2)
    \<and> direction g =
        ((fst point - fst (position self)) / sqrt (max (point_dist_sqr self point) (radius self ^ 2)),
         (snd point - snd (position self)) / sqrt (max (point_dist_sqr self point) (radius self ^ 2)))
    \<and> vec_mag (direction g) =
        (if radius self ^ 2 \<le> point_dist_sqr self point then 1
         else sqrt (point_dist_sqr self point) / radius self)
    \<and> (point_dist_sqr self point < radius self ^ 2 \<longrightarrow> vec_mag (direction g) < 1)"
proof -
  let ?d2 = "point_dist_sqr self point"
  let ?m = "max ?d2 (radius self ^ 2)"
  have m_pos: "0 < ?m" using r by (simp add: max_def not_le) (smt (verit) zero_less_power)
  hence s_pos: "0 < sqrt ?m" by simp
  let ?g = "\<lparr>force = GRAVITY_CONSTANT / ?m,
     direction = ((fst point - fst (position self)) / sqrt ?m, (snd point - snd (position self)) / sqrt ?m)\<rparr>"
  have eq: "calc_gravity_at_point self point = Inr ?g"
    using m_pos s_pos by (simp add: calc_gravity_at_point_def Let_def point_dist_sqr_def)
  have mag: "vec_mag (direction ?g) = sqrt ?d2 / sqrt ?m"
    using vec_mag_div[OF s_pos] by (simp add: point_dist_sqr_def)
  have c1: "radius self ^ 2 \<le> ?d2 \<Longrightarrow> sqrt ?d2 / sqrt ?m = 1"
    using m_pos by (simp add: max_def)
  have c2: "\<not> radius self ^ 2 \<le> ?d2 \<Longrightarrow> sqrt ?d2 / sqrt ?m = sqrt ?d2 / radius self"
    using r by (simp add: max_def)
  have c3: "?d2 < radius self ^ 2 \<Longrightarrow> sqrt ?d2 / radius self < 1"
  proof -
    assume a: "?d2 < radius self ^ 2"
    have "sqrt ?d2 < sqrt (radius self ^ 2)" using a by (simp only: real_sqrt_less_iff)
    then show ?thesis using r by simp
  qed
  show ?thesis
    apply (rule exI[of _ ?g])
    using eq mag c1 c2 c3 by (auto simp: not_le)
qed

text \<open>A body of radius 2 at the origin and the point \<open>(1, 0)\<close> inside it: the theorem
  applies, and the direction returned has magnitude 1/2.\<close>

theorem calc_gravity_at_point_floored_witness:
  "\<exists>g. calc_gravity_at_point (SystemBody_init ''b'' 1 2 () (0, 0) (0, 0)) (1, 0) = Inr g
     \<and> force g = GRAVITY_CONSTANT / 4 \<and> vec_mag (direction g) = 1 / 2"
  using calc_gravity_at_point_floored[of "SystemBody_init ''b'' 1 2 () (0, 0) (0, 0)" "(1, 0)"]
  by (auto simp: SystemBody_init_def point_dist_sqr_def)

text \<open>C9 as stated fails: at a point inside the body the direction is not a unit vector.\<close>

theorem calc_gravity_at_point_not_unit:
  "calc_gravity_at_point (SystemBody_init ''b'' 1 2 () (0, 0) (0, 0)) (1, 0)
     = Inr \<lparr>force = 66743 / 40, direction = (1 / 2, 0)\<rparr>
   \<and> vec_mag (1 / 2, 0) = 1 / 2"
  by (simp add: calc_gravity_at_point_def SystemBody_init_def Let_def GRAVITY_CONSTANT_def
      vec_mag_def real_sqrt_divide power_divide)

subsection \<open>Construction\<close>

text \<open>
  C5, as the code has it. \<open>SystemBody.__init__\<close> validates nothing: for every mass,
  radius and colour it returns a body that holds exactly the mass, the radius and the
  colour it was given, with zero acceleration.
\<close>

theorem SystemBody_init_stores:
  "mass (SystemBody_init nm m r c pos vel) = m
   \<and> radius (SystemBody_init nm m r c pos vel) = r
   \<and> color (SystemBody_init nm m r c pos vel) = c
   \<and> position (SystemBody_init nm m r c pos vel) = pos
   \<and> velocity (SystemBody_init nm m r c pos vel) = vel
   \<and> acceleration (SystemBody_init nm m r c pos vel) = (0, 0)"
  by (simp add: SystemBody_init_def)

text \<open>C5 as stated fails: a body with negative mass, zero radius and colour channels
  outside \<open>[0, 255]\<close> is constructed, and holds those values.\<close>

theorem SystemBody_init_accepts_invalid:
  "mass (SystemBody_init ''x'' (- 1) 0 (300 :: int, - 20 :: int, 0 :: int) (0, 0) (0, 0)) = - 1
   \<and> radius (SystemBody_init ''x'' (- 1) 0 (300 :: int, - 20 :: int, 0 :: int) (0, 0) (0, 0)) = 0
   \<and> color (SystemBody_init ''x'' (- 1) 0 (300 :: int, - 20 :: int, 0 :: int) (0, 0) (0, 0))
       = (300, - 20, 0)"
  by (simp add: SystemBody_init_def)

subsection \<open>Divisions in the collision computation\<close>





section \<open>Properties of the tick\<close>

subsection \<open>What the loops preserve\<close>

lemma static_fields:
  assumes "static a = static b"
  shows "name a = name b \<and> mass a = mass b \<and> radius a = radius b \<and> color a = color b
    \<and> position a = position b \<and> velocity a = velocity b"
proof -
  have "name (static a) = name (static b)" "mass (static a) = mass (static b)"
    "radius (static a) = radius (static b)" "color (static a) = color (static b)"
    "position (static a) = position (static b)" "velocity (static a) = velocity (static b)"
    using assms by simp_all
  thus ?thesis by (simp add: static_def)
qed

lemma static_add_acceleration: "static (add_acceleration b v) = static b"
  by (simp add: static_def add_acceleration_def)

lemma calc_gravity_acceleration_static:
  assumes "static a = static a'" "static b = static b'"
  shows "calc_gravity_acceleration a b = calc_gravity_acceleration a' b'"
  using static_fields[OF assms(1)] static_fields[OF assms(2)]
  by (simp add: calc_gravity_acceleration_def)

lemma calc_collision_bias_static:
  assumes "static a = static a'" "static b = static b'"
  shows "calc_collision_bias a b = calc_collision_bias a' b'"
proof -
  note f = static_fields[OF assms(1)] static_fields[OF assms(2)]
  have rv: "rel_vel a b = rel_vel a' b'" using f by (simp add: rel_vel_def)
  have rp: "rel_pos a b = rel_pos a' b'" using f by (simp add: rel_pos_def)
  have rpm: "rel_pos_mag a b = rel_pos_mag a' b'" by (simp add: rel_pos_mag_def rp)
  have i: "intersection a b = intersection a' b'" using f by (simp add: intersection_def rpm)
  have cn: "col_normal a b = col_normal a' b'" by (simp add: col_normal_def rp rpm)
  have rvn: "rel_vel_n a b = rel_vel_n a' b'" by (simp add: rel_vel_n_def rv cn)
  have rvm: "rel_vel_mag a b = rel_vel_mag a' b'" by (simp add: rel_vel_mag_def rv)
  have m: "mass a = mass a'" "mass b = mass b'" using f by simp_all
  show ?thesis unfolding calc_collision_bias_def rv rpm i cn rvn rvm m ..
qed

lemma calc_blended_color_static:
  assumes "static a = static a'" "static b = static b'"
  shows "calc_blended_color ops a b x = calc_blended_color ops a' b' x"
  using static_fields[OF assms(1)] static_fields[OF assms(2)]
  by (simp add: calc_blended_color_def)

lemma merged_body_static:
  assumes "static a = static a'" "static b = static b'"
  shows "merged_body ops a b = merged_body ops a' b'"
  using static_fields[OF assms(1)] static_fields[OF assms(2)]
  by (simp add: merged_body_def calc_blended_color_def)

lemma map_static_update:
  assumes "static x = static (h ! i)"
  shows "map static (h[i := x]) = map static h"
proof (cases "i < length h")
  case True
  have "map static (h[i := x]) = (map static h)[i := static (h ! i)]"
    using assms by (simp add: map_update)
  also have "\<dots> = map static h"
    using True by (metis list_update_id nth_map)
  finally show ?thesis .
next
  case False
  then show ?thesis by (simp add: list_update_beyond)
qed

lemma static_nth:
  "map static h' = map static h \<Longrightarrow> k < length h \<Longrightarrow> static (h' ! k) = static (h ! k)"
  by (metis length_map nth_map)

lemma apply_gravity_static:
  "apply_gravity h i j = Inr h' \<Longrightarrow> map static h' = map static h"
  by (auto simp: apply_gravity_def Let_def static_add_acceleration map_static_update
      split: sum.splits)

lemma apply_gravity_length:
  "apply_gravity h i j = Inr h' \<Longrightarrow> length h' = length h"
  by (auto simp: apply_gravity_def Let_def split: sum.splits)

lemma apply_gravity_other:
  "apply_gravity h i j = Inr h' \<Longrightarrow> k \<noteq> i \<Longrightarrow> h' ! k = h ! k"
  by (auto simp: apply_gravity_def Let_def split: sum.splits)

lemma map_static_length: "map static h' = map static h \<Longrightarrow> length h' = length h"
  by (metis length_map)

lemma gather_static:
  "gather i js h affs = Inr (h', affs') \<Longrightarrow> map static h' = map static h"
proof (induction js arbitrary: h affs)
  case Nil
  then show ?case by simp
next
  case (Cons j js)
  show ?case
  proof (cases "i = j")
    case True
    with Cons show ?thesis by simp
  next
    case False
    from Cons.prems False obtain h1 affs1 where
      g: "apply_gravity h i j = Inr h1" and r: "gather i js h1 affs1 = Inr (h', affs')"
      by (auto split: sum.splits option.splits)
    from Cons.IH[OF r] apply_gravity_static[OF g] show ?thesis by simp
  qed
qed

lemma gather_other:
  "gather i js h affs = Inr (h', affs') \<Longrightarrow> k \<noteq> i \<Longrightarrow> h' ! k = h ! k"
proof (induction js arbitrary: h affs)
  case Nil
  then show ?case by simp
next
  case (Cons j js)
  show ?case
  proof (cases "i = j")
    case True
    with Cons show ?thesis by simp
  next
    case False
    from Cons.prems False obtain h1 affs1 where
      g: "apply_gravity h i j = Inr h1" and r: "gather i js h1 affs1 = Inr (h', affs')"
      by (auto split: sum.splits option.splits)
    from Cons.IH[OF r Cons.prems(2)] apply_gravity_other[OF g Cons.prems(2)] show ?thesis by simp
  qed
qed

text \<open>What the inner loop records: only partners with a collision, never the body itself.\<close>

lemma gather_affectors:
  assumes "gather i js h affs = Inr (h', affs')" "i < length h" "\<forall>j\<in>set js. j < length h"
    "(j, ci) \<in> set affs'"
  shows "(j, ci) \<in> set affs
     \<or> (j \<in> set js \<and> j \<noteq> i \<and> calc_collision_bias (h ! i) (h ! j) = Inr (Some ci))"
  using assms
proof (induction js arbitrary: h affs)
  case Nil
  then show ?case by simp
next
  case (Cons x js)
  show ?case
  proof (cases "i = x")
    case True
    with Cons.prems have "gather i js h affs = Inr (h', affs')" by simp
    from Cons.IH[OF this] Cons.prems show ?thesis by auto
  next
    case False
    from Cons.prems(1) False obtain h1 oc where
      g: "apply_gravity h i x = Inr h1" and
      c: "calc_collision_bias (h1 ! i) (h1 ! x) = Inr oc" and
      r: "gather i js h1 (affs @ (case oc of None \<Rightarrow> [] | Some col \<Rightarrow> [(x, col)])) = Inr (h', affs')"
      by (auto split: sum.splits option.splits)
    have st: "map static h1 = map static h" by (rule apply_gravity_static[OF g])
    have len: "length h1 = length h" by (rule apply_gravity_length[OF g])
    have same: "\<And>k. k < length h \<Longrightarrow> calc_collision_bias (h1 ! i) (h1 ! k) = calc_collision_bias (h ! i) (h ! k)"
      using st Cons.prems(2) by (intro calc_collision_bias_static static_nth)
    from Cons.IH[OF r] Cons.prems len
    have "(j, ci) \<in> set (affs @ (case oc of None \<Rightarrow> [] | Some col \<Rightarrow> [(x, col)]))
       \<or> (j \<in> set js \<and> j \<noteq> i \<and> calc_collision_bias (h1 ! i) (h1 ! j) = Inr (Some ci))"
      by simp
    then show ?thesis
    proof
      assume "(j, ci) \<in> set (affs @ (case oc of None \<Rightarrow> [] | Some col \<Rightarrow> [(x, col)]))"
      then show ?thesis using c False same[of x] Cons.prems(3)
        by (auto split: option.splits)
    next
      assume "j \<in> set js \<and> j \<noteq> i \<and> calc_collision_bias (h1 ! i) (h1 ! j) = Inr (Some ci)"
      then show ?thesis using same[of j] Cons.prems(3) by auto
    qed
  qed
qed

lemma recorded_static:
  assumes st: "map static h1 = map static h" and b: "\<forall>a\<in>set all. a < length h"
  shows "recorded h1 all u = recorded h all u"
proof (cases "affected u \<in> set all")
  case False
  then show ?thesis by (simp add: recorded_def)
next
  case True
  have s: "\<And>k. k \<in> set all \<Longrightarrow> static (h1 ! k) = static (h ! k)"
    by (rule static_nth[OF st]) (use b in auto)
  have f: "mass (h1 ! affected u) = mass (h ! affected u)"
    "radius (h1 ! affected u) = radius (h ! affected u)"
    "color (h1 ! affected u) = color (h ! affected u)"
    using static_fields[OF s[OF True]] by simp_all
  have c: "\<And>p. fst p \<in> set all \<Longrightarrow>
      calc_collision_bias (h1 ! affected u) (h1 ! fst p) = calc_collision_bias (h ! affected u) (h ! fst p)"
    using True by (intro calc_collision_bias_static s)
  have "(\<forall>p \<in> set (affectors u). fst p \<in> set all \<and> fst p \<noteq> affected u
           \<and> calc_collision_bias (h1 ! affected u) (h1 ! fst p) = Inr (Some (snd p)))
     = (\<forall>p \<in> set (affectors u). fst p \<in> set all \<and> fst p \<noteq> affected u
           \<and> calc_collision_bias (h ! affected u) (h ! fst p) = Inr (Some (snd p)))"
  proof (intro ball_cong refl)
    fix p assume "p \<in> set (affectors u)"
    show "(fst p \<in> set all \<and> fst p \<noteq> affected u
           \<and> calc_collision_bias (h1 ! affected u) (h1 ! fst p) = Inr (Some (snd p)))
     = (fst p \<in> set all \<and> fst p \<noteq> affected u
           \<and> calc_collision_bias (h ! affected u) (h ! fst p) = Inr (Some (snd p)))"
      using c[of p] by (cases "fst p \<in> set all") simp_all
  qed
  then show ?thesis
    unfolding recorded_def f by (simp only:)
qed

lemma collect_static:
  "collect all rest h pending = Inr (h', pending') \<Longrightarrow> map static h' = map static h"
proof (induction rest arbitrary: h pending)
  case Nil
  then show ?case by simp
next
  case (Cons i rest)
  from Cons.prems obtain h1 affs pend1 where
    g: "gather i all h [] = Inr (h1, affs)" and
    r: "collect all rest h1 pend1 = Inr (h', pending')"
    by (auto split: sum.splits)
  from Cons.IH[OF r] gather_static[OF g] show ?case by simp
qed

lemma collect_recorded:
  assumes "collect all rest h pending = Inr (h', pending')"
    "\<forall>a\<in>set all. a < length h" "set rest \<subseteq> set all" "u \<in> set pending'"
  shows "u \<in> set pending \<or> recorded h all u"
  using assms
proof (induction rest arbitrary: h pending)
  case Nil
  then show ?case by simp
next
  case (Cons i rest)
  from Cons.prems(1) obtain h1 affs where
    g: "gather i all h [] = Inr (h1, affs)" and
    r: "collect all rest h1
          (if length affs > 0 then pending @ [(fresh_update h i)\<lparr>affectors := affs\<rparr>]
           else pending) = Inr (h', pending')"
    by (auto split: sum.splits)
  have st: "map static h1 = map static h" by (rule gather_static[OF g])
  have len: "length h1 = length h" by (rule map_static_length[OF st])
  have i: "i \<in> set all" "i < length h" using Cons.prems by auto
  from Cons.IH[OF r] Cons.prems len
  have "u \<in> set (if length affs > 0 then pending @ [(fresh_update h i)\<lparr>affectors := affs\<rparr>]
           else pending) \<or> recorded h1 all u" by simp
  then show ?case
  proof
    assume a: "u \<in> set (if length affs > 0 then pending @ [(fresh_update h i)\<lparr>affectors := affs\<rparr>]
           else pending)"
    show ?thesis
    proof (cases "u \<in> set pending")
      case True
      then show ?thesis by simp
    next
      case False
      with a have u: "u = (fresh_update h i)\<lparr>affectors := affs\<rparr>" and ne: "affs \<noteq> []"
        by (auto split: if_splits)
      have "\<forall>p\<in>set affs. fst p \<in> set all \<and> fst p \<noteq> i
            \<and> calc_collision_bias (h ! i) (h ! fst p) = Inr (Some (snd p))"
      proof
        fix p assume "p \<in> set affs"
        hence "(fst p, snd p) \<in> set affs" by simp
        from gather_affectors[OF g i(2) Cons.prems(2) this]
        show "fst p \<in> set all \<and> fst p \<noteq> i
            \<and> calc_collision_bias (h ! i) (h ! fst p) = Inr (Some (snd p))" by simp
      qed
      then have "recorded h all u" using u ne i by (simp add: recorded_def fresh_update_def)
      then show ?thesis ..
    qed
  next
    assume "recorded h1 all u"
    then show ?thesis using recorded_static[OF st Cons.prems(2)] by simp
  qed
qed

lemma resolve_one_affected:
  "affected (snd (resolve_one ops h p st)) = affected (snd st)"
  by (simp add: resolve_one_def Let_def)


text \<open>An invariant of the resolution that every pair preserves holds after the loop.\<close>

lemma fold_resolve_one_invariant:
  assumes "P (fst st)"
    and "\<And>rs u p. P rs \<Longrightarrow> affected u = affected (snd st) \<Longrightarrow> p \<in> set ps \<Longrightarrow>
           P (fst (resolve_one ops h p (rs, u)))"
  shows "P (fst (fold (resolve_one ops h) ps st))"
  using assms
proof (induction ps arbitrary: st)
  case Nil
  then show ?case by simp
next
  case (Cons p ps)
  have 1: "P (fst (resolve_one ops h p st))"
    using Cons.prems(2)[of "fst st" "snd st" p] Cons.prems(1) by simp
  show ?case
    by (simp, rule Cons.IH[OF 1]) (use Cons.prems(2) in \<open>simp add: resolve_one_affected\<close>)
qed

lemma resolve_all_invariant:
  fixes ops :: "'c color_ops"
  assumes "P rs"
    and "\<And>rs u v p. P rs \<Longrightarrow> v \<in> set pending \<Longrightarrow> affected u = affected v \<Longrightarrow>
           p \<in> set (affectors v) \<Longrightarrow> P (fst (resolve_one ops h p (rs, u)))"
  shows "P (fst (resolve_all ops h pending rs))"
  using assms
proof (induction pending arbitrary: rs)
  case Nil
  then show ?case by simp
next
  case (Cons v vs)
  have 1: "P (fst (fold (resolve_one ops h) (affectors v) (rs, v)))"
  proof (rule fold_resolve_one_invariant)
    show "P (fst (rs, v))" using Cons.prems(1) by simp
  next
    fix rs' and u :: "'c UpdateInfo" and p
    assume "P rs'" "affected u = affected (snd (rs, v))" "p \<in> set (affectors v)"
    then show "P (fst (resolve_one ops h p (rs', u)))"
      using Cons.prems(2)[of rs' v u p] by simp
  qed
  have "P (fst (resolve_all ops h vs (fst (fold (resolve_one ops h) (affectors v) (rs, v)))))"
  proof (rule Cons.IH[OF 1])
    fix rs' and u :: "'c UpdateInfo" and w p
    assume "P rs'" "w \<in> set vs" "affected u = affected w" "p \<in> set (affectors w)"
    then show "P (fst (resolve_one ops h p (rs', u)))"
      using Cons.prems(2)[of rs' w u p] by simp
  qed
  then show ?case by (simp add: Let_def)
qed

lemma resolve_one_claimed:
  "claimed rs \<Longrightarrow> claimed (fst (resolve_one ops h p (rs, u)))"
  by (auto simp: claimed_def resolve_one_def Let_def)

lemma resolve_one_within:
  "addrs_in S rs \<Longrightarrow> affected u \<in> S \<Longrightarrow> fst p \<in> S \<Longrightarrow>
   addrs_in S (fst (resolve_one ops h p (rs, u)))"
  by (auto simp: addrs_in_def resolve_one_def Let_def)

lemma resolve_one_remove_mono:
  "X \<subseteq> set (bodies_to_remove rs) \<Longrightarrow>
   X \<subseteq> set (bodies_to_remove (fst (resolve_one ops h p (rs, u))))"
  by (auto simp: resolve_one_def Let_def)

lemma resolve_one_remove_mem:
  "x \<in> set (bodies_to_remove rs) \<Longrightarrow>
   x \<in> set (bodies_to_remove (fst (resolve_one ops h p (rs, u))))"
  by (auto simp: resolve_one_def Let_def)

lemma resolve_all_claimed:
  "claimed rs \<Longrightarrow> claimed (fst (resolve_all ops h pending rs))"
  by (rule resolve_all_invariant) (simp_all add: resolve_one_claimed)

lemma resolve_all_within:
  assumes "addrs_in S rs" "\<forall>u\<in>set pending. affected u \<in> S \<and> fst ` set (affectors u) \<subseteq> S"
  shows "addrs_in S (fst (resolve_all ops h pending rs))"
  by (rule resolve_all_invariant[where P = "addrs_in S"])
     (use assms in \<open>auto intro!: resolve_one_within\<close>)

lemma resolve_all_remove_mono:
  "X \<subseteq> set (bodies_to_remove rs) \<Longrightarrow>
   X \<subseteq> set (bodies_to_remove (fst (resolve_all ops h pending rs)))"
  by (rule resolve_all_invariant[where P = "\<lambda>rs. X \<subseteq> set (bodies_to_remove rs)"])
     (simp_all add: resolve_one_remove_mono)

lemma fold_resolve_one_absorbed:
  assumes "p \<in> set ps" "bias (snd p) < 1 / 10" "fst p \<noteq> affected (snd st)"
  shows "affected (snd st) \<in> set (bodies_to_remove (fst (fold (resolve_one ops h) ps st)))"
  using assms
proof (induction ps arbitrary: st)
  case Nil
  then show ?case by simp
next
  case (Cons q ps)
  show ?case
  proof (cases "p = q")
    case True
    have "affected (snd st) \<in> set (bodies_to_remove (fst (resolve_one ops h q st)))"
      using Cons.prems True by (simp add: resolve_one_def Let_def)
    hence "affected (snd st)
       \<in> set (bodies_to_remove (fst (fold (resolve_one ops h) ps (resolve_one ops h q st))))"
      by (rule fold_resolve_one_invariant[where P = "\<lambda>rs. affected (snd st) \<in> set (bodies_to_remove rs)"])
         (rule resolve_one_remove_mem)
    then show ?thesis by simp
  next
    case False
    with Cons.prems have "p \<in> set ps" by simp
    from Cons.IH[OF this Cons.prems(2), of "resolve_one ops h q st"] Cons.prems(3)
    show ?thesis by (simp add: resolve_one_affected)
  qed
qed

lemma resolve_all_absorbed:
  assumes "u \<in> set pending" "p \<in> set (affectors u)" "bias (snd p) < 1 / 10"
    "fst p \<noteq> affected u"
  shows "affected u \<in> set (bodies_to_remove (fst (resolve_all ops h pending rs)))"
  using assms(1)
proof (induction pending arbitrary: rs)
  case Nil
  then show ?case by simp
next
  case (Cons v vs)
  show ?case
  proof (cases "u = v")
    case True
    have "{affected u} \<subseteq> set (bodies_to_remove (fst (fold (resolve_one ops h) (affectors v) (rs, v))))"
      using fold_resolve_one_absorbed[of p "affectors v" "(rs, v)"] assms True by simp
    from resolve_all_remove_mono[OF this] show ?thesis by (simp add: Let_def)
  next
    case False
    with Cons.prems have "u \<in> set vs" by simp
    from Cons.IH[OF this] show ?thesis by (simp add: Let_def)
  qed
qed

lemma apply_update_length: "length (apply_update u h) = length h"
  by (simp add: apply_update_def)

lemma apply_update_other: "k \<noteq> affected u \<Longrightarrow> apply_update u h ! k = h ! k"
  by (simp add: apply_update_def)

lemma apply_all_length: "length (apply_all tm pending h) = length h"
  unfolding apply_all_def
  by (induction pending arbitrary: h) (simp_all add: apply_update_length)

text \<open>A body claimed by a merge keeps what it had: its update is never applied.\<close>

lemma apply_all_claimed: "k \<in> set tm \<Longrightarrow> apply_all tm pending h ! k = h ! k"
  unfolding apply_all_def
proof (induction pending arbitrary: h)
  case Nil
  then show ?case by simp
next
  case (Cons u us)
  show ?case
  proof (cases "affected u \<in> set tm")
    case True
    then show ?thesis using Cons by simp
  next
    case False
    hence "k \<noteq> affected u" using Cons.prems by auto
    then show ?thesis using Cons False by (simp add: apply_update_other)
  qed
qed

lemma apply_all_untouched:
  "k \<notin> affected ` set pending \<Longrightarrow> apply_all tm pending h ! k = h ! k"
  unfolding apply_all_def
  by (induction pending arbitrary: h) (auto simp: apply_update_other)

lemma merge_all_result:
  assumes "merge_all ops ms h rem add = Inr (h3, rem3, add3)"
    "\<forall>p\<in>set ms. fst p < length h \<and> snd p < length h"
  shows "h3 = h @ map (\<lambda>p. merged_body ops (h ! fst p) (h ! snd p)) ms
     \<and> add3 = add @ [length h ..< length h + length ms]
     \<and> set rem3 = set rem \<union> fst ` set ms \<union> snd ` set ms
     \<and> (\<forall>p\<in>set ms. mass (h ! fst p) + mass (h ! snd p) \<noteq> 0)"
  using assms
proof (induction ms arbitrary: h rem add)
  case Nil
  then show ?case by simp
next
  case (Cons p ms)
  let ?h1 = "h @ [merged_body ops (h ! fst p) (h ! snd p)]"
  from Cons.prems(1) have nz: "mass (h ! fst p) + mass (h ! snd p) \<noteq> 0"
    and r: "merge_all ops ms ?h1 (List.insert (snd p) (List.insert (fst p) rem))
              (add @ [length h]) = Inr (h3, rem3, add3)"
    by (auto split: if_splits)
  have b: "\<forall>q\<in>set ms. fst q < length ?h1 \<and> snd q < length ?h1"
    using Cons.prems(2) by auto
  have same: "\<forall>q\<in>set ms. ?h1 ! fst q = h ! fst q \<and> ?h1 ! snd q = h ! snd q"
    using Cons.prems(2) by (auto simp: nth_append)
  have m: "map (\<lambda>q. merged_body ops (?h1 ! fst q) (?h1 ! snd q)) ms
         = map (\<lambda>q. merged_body ops (h ! fst q) (h ! snd q)) ms"
    using same by (intro map_cong refl) simp
  have u: "[length h ..< length h + length (p # ms)]
        = length h # [length ?h1 ..< length ?h1 + length ms]"
    by (subst upt_rec) simp
  from Cons.IH[OF r b] have
    1: "h3 = ?h1 @ map (\<lambda>q. merged_body ops (?h1 ! fst q) (?h1 ! snd q)) ms" and
    2: "add3 = (add @ [length h]) @ [length ?h1 ..< length ?h1 + length ms]" and
    3: "set rem3 = set (List.insert (snd p) (List.insert (fst p) rem)) \<union> fst ` set ms \<union> snd ` set ms" and
    4: "\<forall>q\<in>set ms. mass (?h1 ! fst q) + mass (?h1 ! snd q) \<noteq> 0"
    by simp_all
  have "h3 = h @ map (\<lambda>p. merged_body ops (h ! fst p) (h ! snd p)) (p # ms)"
    using 1 m by simp
  moreover have "add3 = add @ [length h ..< length h + length (p # ms)]"
    using 2 u by simp
  moreover have "set rem3 = set rem \<union> fst ` set (p # ms) \<union> snd ` set (p # ms)"
    using 3 by auto
  moreover have "\<forall>q\<in>set (p # ms). mass (h ! fst q) + mass (h ! snd q) \<noteq> 0"
    using 4 same nz by simp
  ultimately show ?case by blast
qed

lemma remove_all_result:
  assumes "remove_all rs bs = Inr bs'" "distinct bs"
  shows "set bs' = set bs - set rs \<and> distinct bs'"
  using assms
proof (induction rs arbitrary: bs)
  case Nil
  then show ?case by simp
next
  case (Cons r rs)
  from Cons.prems(1) have r: "remove_all rs (remove1 r bs) = Inr bs'"
    by (auto split: if_splits)
  have d: "distinct (remove1 r bs)" using Cons.prems(2) by simp
  from Cons.IH[OF r d] Cons.prems(2) show ?case by auto
qed

subsection \<open>The tick in phases\<close>

lemma claimed_empty: "claimed empty_resolution"
  by (simp add: claimed_def empty_resolution_def)

lemma addrs_in_empty: "addrs_in S empty_resolution"
  by (simp add: addrs_in_def empty_resolution_def)

lemma tick_phases:
  fixes ops :: "'c color_ops"
  assumes ok: "pool_ok p" and us: "update_system ops p = Inr p'"
  obtains h1 pending rs h2 bs where
    "collect (bodies p) (bodies p) (heap p) [] = Inr (h1, pending)"
    "rs = fst (resolve_all ops h1 pending empty_resolution)"
    "h2 = apply_all (bodies_to_merge rs) (snd (resolve_all ops h1 pending empty_resolution)) h1"
    "map static h1 = map static (heap p)"
    "length h2 = length (heap p)"
    "\<forall>u\<in>set pending. recorded (heap p) (bodies p) u"
    "claimed rs" "addrs_in (set (bodies p)) rs"
    "heap p' = h2 @ map (\<lambda>q. merged_body ops (h2 ! fst q) (h2 ! snd q)) (body_merge_info rs)"
    "bodies p' = bs @ [length h2 ..< length h2 + length (body_merge_info rs)]"
    "set bs = set (bodies p)
        - (set (bodies_to_remove rs) \<union> fst ` set (body_merge_info rs) \<union> snd ` set (body_merge_info rs))"
    "\<forall>q\<in>set (body_merge_info rs). mass (h2 ! fst q) + mass (h2 ! snd q) \<noteq> 0"
proof -
  from us obtain h1 pending where
    c: "collect (bodies p) (bodies p) (heap p) [] = Inr (h1, pending)"
    by (auto simp: update_system_def split: sum.splits)
  define rs where "rs = fst (resolve_all ops h1 pending empty_resolution)"
  define h2 where
    "h2 = apply_all (bodies_to_merge rs) (snd (resolve_all ops h1 pending empty_resolution)) h1"
  from us c obtain h3 to_remove to_add bs where
    m: "merge_all ops (body_merge_info rs) h2 (bodies_to_remove rs) [] = Inr (h3, to_remove, to_add)"
    and r: "remove_all to_remove (bodies p) = Inr bs"
    and p': "p' = p\<lparr>heap := h3, bodies := bs @ to_add\<rparr>"
    by (auto simp: update_system_def Let_def rs_def h2_def split: sum.splits)
  have bnd: "\<forall>a\<in>set (bodies p). a < length (heap p)" and dist: "distinct (bodies p)"
    using ok by (simp_all add: pool_ok_def)
  have st: "map static h1 = map static (heap p)" by (rule collect_static[OF c])
  have len1: "length h1 = length (heap p)" by (rule map_static_length[OF st])
  have len2: "length h2 = length (heap p)" by (simp add: h2_def apply_all_length len1)
  have rec: "\<forall>u\<in>set pending. recorded (heap p) (bodies p) u"
    using collect_recorded[OF c bnd] by auto
  have cl: "claimed rs" unfolding rs_def by (rule resolve_all_claimed[OF claimed_empty])
  have ai: "addrs_in (set (bodies p)) rs" unfolding rs_def
    by (rule resolve_all_within[OF addrs_in_empty]) (use rec in \<open>auto simp: recorded_def\<close>)
  have mb: "\<forall>q\<in>set (body_merge_info rs). fst q < length h2 \<and> snd q < length h2"
    using ai bnd len2 by (auto simp: addrs_in_def)
  note mr = merge_all_result[OF m mb]
  note rr = remove_all_result[OF r dist]
  show ?thesis
  proof (rule that[of h1 pending rs h2 bs])
    show "heap p' = h2 @ map (\<lambda>q. merged_body ops (h2 ! fst q) (h2 ! snd q)) (body_merge_info rs)"
      using mr p' by simp
    show "bodies p' = bs @ [length h2 ..< length h2 + length (body_merge_info rs)]"
      using mr p' by simp
    show "set bs = set (bodies p)
        - (set (bodies_to_remove rs) \<union> fst ` set (body_merge_info rs) \<union> snd ` set (body_merge_info rs))"
      using mr rr by simp
    show "\<forall>q\<in>set (body_merge_info rs). mass (h2 ! fst q) + mass (h2 ! snd q) \<noteq> 0"
      using mr by simp
  qed (fact c rs_def h2_def st len2 rec cl ai)+
qed

lemma merge_pair_outcome:
  fixes ops :: "'c color_ops"
  assumes ok: "pool_ok p" and us: "update_system ops p = Inr p'"
    and mp: "(b1, b2) \<in> set (merge_pairs ops p)"
  obtains n h1 pending where
    "collect (bodies p) (bodies p) (heap p) [] = Inr (h1, pending)"
    "n \<in> set (bodies p')" "length (heap p) \<le> n"
    "heap p' ! n = merged_body ops (heap p ! b1) (heap p ! b2)"
    "mass (heap p ! b1) + mass (heap p ! b2) \<noteq> 0"
    "b1 \<in> set (bodies p)" "b2 \<in> set (bodies p)"
    "b1 \<notin> set (bodies p')" "b2 \<notin> set (bodies p')"
    "heap p' ! b1 = h1 ! b1" "heap p' ! b2 = h1 ! b2"
    "static (h1 ! b1) = static (heap p ! b1)" "static (h1 ! b2) = static (heap p ! b2)"
proof -
  show ?thesis
  proof (rule tick_phases[OF ok us])
  fix h1 pending rs h2 bs
  assume c: "collect (bodies p) (bodies p) (heap p) [] = Inr (h1, pending)" and
    rs: "rs = fst (resolve_all ops h1 pending empty_resolution)" and
    h2: "h2 = apply_all (bodies_to_merge rs) (snd (resolve_all ops h1 pending empty_resolution)) h1" and
    st: "map static h1 = map static (heap p)" and
    len2: "length h2 = length (heap p)" and
    rec: "\<forall>u\<in>set pending. recorded (heap p) (bodies p) u" and
    cl: "claimed rs" and ai: "addrs_in (set (bodies p)) rs" and
    hp: "heap p' = h2 @ map (\<lambda>q. merged_body ops (h2 ! fst q) (h2 ! snd q)) (body_merge_info rs)" and
    bp: "bodies p' = bs @ [length h2 ..< length h2 + length (body_merge_info rs)]" and
    sb: "set bs = set (bodies p)
        - (set (bodies_to_remove rs) \<union> fst ` set (body_merge_info rs) \<union> snd ` set (body_merge_info rs))" and
    nz: "\<forall>q\<in>set (body_merge_info rs). mass (h2 ! fst q) + mass (h2 ! snd q) \<noteq> 0"
  have bnd: "\<forall>a\<in>set (bodies p). a < length (heap p)"
    using ok by (simp add: pool_ok_def)
  have mem: "(b1, b2) \<in> set (body_merge_info rs)"
    using mp c by (simp add: merge_pairs_def rs)
  then obtain k where k: "k < length (body_merge_info rs)" "body_merge_info rs ! k = (b1, b2)"
    by (auto simp: in_set_conv_nth)
  have inb: "b1 \<in> set (bodies p)" "b2 \<in> set (bodies p)"
    using ai mem by (auto simp: addrs_in_def)
  hence lt: "b1 < length (heap p)" "b2 < length (heap p)" using bnd by auto
  have tm: "b1 \<in> set (bodies_to_merge rs)" "b2 \<in> set (bodies_to_merge rs)"
    using cl mem by (auto simp: claimed_def)
  have keep: "h2 ! b1 = h1 ! b1" "h2 ! b2 = h1 ! b2"
    unfolding h2 by (rule apply_all_claimed[OF tm(1)], rule apply_all_claimed[OF tm(2)])
  have s1: "static (h1 ! b1) = static (heap p ! b1)" by (rule static_nth[OF st lt(1)])
  have s2: "static (h1 ! b2) = static (heap p ! b2)" by (rule static_nth[OF st lt(2)])
  let ?n = "length h2 + k"
  have n_in: "?n \<in> set (bodies p')" using bp k(1) by simp
  have "heap p' ! ?n = merged_body ops (h2 ! b1) (h2 ! b2)"
    using hp k by (simp add: nth_append)
  also have "\<dots> = merged_body ops (heap p ! b1) (heap p ! b2)"
    unfolding keep by (rule merged_body_static[OF s1 s2])
  finally have body: "heap p' ! ?n = merged_body ops (heap p ! b1) (heap p ! b2)" .
  have "mass (h2 ! fst (b1, b2)) + mass (h2 ! snd (b1, b2)) \<noteq> 0" using nz mem by blast
  hence "mass (h2 ! b1) + mass (h2 ! b2) \<noteq> 0" by simp
  hence mz: "mass (heap p ! b1) + mass (heap p ! b2) \<noteq> 0"
    using static_fields[OF s1] static_fields[OF s2] by (simp add: keep)
  have f1: "b1 \<in> fst ` set (body_merge_info rs)" using mem by force
  have f2: "b2 \<in> snd ` set (body_merge_info rs)" using mem by force
  have out: "b1 \<notin> set (bodies p')" "b2 \<notin> set (bodies p')"
    using bp sb f1 f2 lt len2 by auto
  have at: "heap p' ! b1 = h1 ! b1" "heap p' ! b2 = h1 ! b2"
    using hp lt len2 keep by (simp_all add: nth_append)
  show ?thesis
    by (rule that[of h1 pending ?n]) (use c n_in len2 body mz inb out at s1 s2 in simp_all)
  qed
qed

subsection \<open>A tick with a merge: a light body moving onto a heavy one\<close>

lemma sqrt_2704: "sqrt 2704 = 52"
  by (rule real_sqrt_unique) simp_all

lemma atan2_neg_x_axis: "x < 0 \<Longrightarrow> atan2 0 x = pi"
  by (simp add: atan2_def)
lemma atan2_pos_x_axis: "0 < x \<Longrightarrow> atan2 0 x = 0"
  by (simp add: atan2_def)

lemmas collision_defs = calc_collision_bias_def intersection_def rel_pos_mag_def rel_pos_def
  rel_vel_n_def rel_vel_def col_normal_def rel_vel_mag_def COLLISION_DAMPENING_def
  SYSTEM_SCALE_def Let_def

lemma approach_pool_eq: "approach_pool = \<lparr>heap = [approach_A, approach_B], bodies = [0, 1], center = (0, 0), heatmap = [], heatmap_active = True,
      heatmap_update_time = 0, heatmap_surface = None\<rparr>"
  by (simp add: approach_pool_def add_body_def SystemBodyPool_init_def)

lemma approach_AB:
  "calc_collision_bias (approach_A\<lparr>acceleration := a\<rparr>) (approach_B\<lparr>acceleration := b\<rparr>)
     = Inr (Some \<lparr>granularity = 10, bias = 100 / 101, impulse = 5 / 1313,
                  reflect_dir = (- (1351 / 1352), 0)\<rparr>)"
  by (simp add: collision_defs approach_A_def approach_B_def SystemBody_init_def sqrt_2704)

lemma approach_BA:
  "calc_collision_bias (approach_B\<lparr>acceleration := b\<rparr>) (approach_A\<lparr>acceleration := a\<rparr>)
     = Inr (Some \<lparr>granularity = 10, bias = 1 / 101, impulse = 50000 / 1313,
                  reflect_dir = (1351 / 1352, 0)\<rparr>)"
  by (simp add: collision_defs approach_A_def approach_B_def SystemBody_init_def sqrt_2704)

lemma approach_gravity_AB:
  "apply_gravity [approach_A\<lparr>acceleration := a\<rparr>, approach_B\<lparr>acceleration := b\<rparr>] 0 (Suc 0)
     = Inr [approach_A\<lparr>acceleration := (fst a + 66743 / 2704, snd a)\<rparr>, approach_B\<lparr>acceleration := b\<rparr>]"
  by (simp add: apply_gravity_def calc_gravity_acceleration_def add_acceleration_def
      approach_A_def approach_B_def SystemBody_init_def GRAVITY_CONSTANT_def Let_def
      atan2_neg_x_axis)

lemma approach_gravity_BA:
  "apply_gravity [approach_A\<lparr>acceleration := a\<rparr>, approach_B\<lparr>acceleration := b\<rparr>] (Suc 0) 0
     = Inr [approach_A\<lparr>acceleration := a\<rparr>, approach_B\<lparr>acceleration := (fst b - 6674300 / 2704, snd b)\<rparr>]"
  by (simp add: apply_gravity_def calc_gravity_acceleration_def add_acceleration_def
      approach_A_def approach_B_def SystemBody_init_def GRAVITY_CONSTANT_def Let_def
      atan2_pos_x_axis)

lemma rec_acc: "r = r\<lparr>acceleration := acceleration r\<rparr>" by simp

lemma approach_collect:
  "collect [0, 1] [0, 1] [approach_A, approach_B] [] = Inr (approach_h1, approach_pending)"
proof -
  have A: "approach_A = approach_A\<lparr>acceleration := (0, 0)\<rparr>"
    and B: "approach_B = approach_B\<lparr>acceleration := (0, 0)\<rparr>"
    by (simp_all add: approach_A_def approach_B_def SystemBody_init_def)
  have g0: "gather 0 [0, 1] [approach_A, approach_B] []
      = Inr ([approach_A\<lparr>acceleration := (66743 / 2704, 0)\<rparr>, approach_B],
             [(1, \<lparr>granularity = 10, bias = 100 / 101, impulse = 5 / 1313,
                  reflect_dir = (- (1351 / 1352), 0)\<rparr>)])"
    apply (subst A, subst B)
    apply (simp add: approach_gravity_AB approach_AB)
    apply (simp add: approach_B_def SystemBody_init_def)
    done
  have g1: "gather 1 [0, 1] [approach_A\<lparr>acceleration := (66743 / 2704, 0)\<rparr>, approach_B] []
      = Inr (approach_h1,
             [(0, \<lparr>granularity = 10, bias = 1 / 101, impulse = 50000 / 1313,
                  reflect_dir = (1351 / 1352, 0)\<rparr>)])"
    apply (subst B)
    apply (simp add: approach_gravity_BA approach_BA approach_h1_def)
    done
  show ?thesis
    apply (simp only: collect.simps g0 sum.case prod.case)
    apply (simp only: list.size length_Cons length_0_conv if_True simp_thms append_Nil)
    apply (simp only: collect.simps g1 sum.case prod.case)
    apply (simp add: approach_pending_def fresh_update_def approach_A_def approach_B_def
        SystemBody_init_def)
    done
qed

lemma weak_small_impulse: "impulse ci < 10 \<Longrightarrow> weak_reflection ci"
  by (simp add: weak_reflection_def Let_def)

lemma approach_resolve:
  "resolve_all unit_ops approach_h1 approach_pending empty_resolution
     = (approach_resolution, approach_pending')"
  by (simp add: approach_pending_def empty_resolution_def resolve_one_def Let_def
      weak_small_impulse approach_resolution_def approach_pending'_def approach_h1_def
      approach_A_def approach_B_def SystemBody_init_def calc_blended_color_def unit_ops_def)

lemma approach_merge_pairs: "merge_pairs unit_ops approach_pool = [(0, 1)]"
  by (simp only: merge_pairs_def approach_pool_eq SystemBodyPool.select_convs approach_collect
      sum.case prod.case approach_resolve approach_resolution_def resolution.select_convs fst_conv)

lemma approach_apply: "apply_all [1, 0] approach_pending' approach_h1 = approach_h1"
  by (simp add: apply_all_def approach_pending'_def)

lemma approach_merge:
  "merge_all unit_ops [(0, 1)] approach_h1 [1] []
     = Inr (approach_h1 @ [approach_merged], [0, 1], [2])"
  by (simp add: approach_h1_def approach_A_def approach_B_def SystemBody_init_def
      merged_body_def calc_blended_color_def unit_ops_def approach_merged_def Let_def)

lemma approach_tick:
  "update_system unit_ops approach_pool
     = Inr (approach_pool\<lparr>heap := approach_h1 @ [approach_merged], bodies := [2]\<rparr>)"
  apply (simp only: update_system_def approach_pool_eq SystemBodyPool.select_convs approach_collect
      sum.case prod.case approach_resolve approach_resolution_def resolution.select_convs
      fst_conv snd_conv Let_def approach_apply approach_merge)
  apply simp
  done

lemma merged_body_fields:
  "merged_body ops a b =
     \<lparr>name = name a @ ''_'' @ name b, mass = mass a + mass b, radius = radius a + radius b,
      color = calc_blended_color ops a b (1 / 2),
      position = ((fst (position a) * mass a + fst (position b) * mass b) / (mass a + mass b),
                  (snd (position a) * mass a + snd (position b) * mass b) / (mass a + mass b)),
      velocity = ((fst (velocity a) * mass a + fst (velocity b) * mass b) / (mass a + mass b),
                  (snd (velocity a) * mass a + snd (velocity b) * mass b) / (mass a + mass b)),
      acceleration = (0, 0)\<rparr>"
  by (simp add: merged_body_def SystemBody_init_def Let_def)


lemma approach_pool_ok: "pool_ok approach_pool"
  by (simp add: pool_ok_def approach_pool_eq)


text \<open>
  C10. In a tick of a well-formed pool that returns, the two bodies of a merge pair are,
  after the tick, exactly as the loop over affected and affector left them (\<open>h1\<close>):
  nothing of their pending updates is committed, so their mass, radius and colour are
  those the tick started from; and the mass, position and velocity of the merged body
  are computed from the values the tick started from.
\<close>

theorem merged_bodies_not_committed:
  fixes ops :: "'c color_ops"
  assumes "pool_ok p" "update_system ops p = Inr p'" "(b1, b2) \<in> set (merge_pairs ops p)"
    "collect (bodies p) (bodies p) (heap p) [] = Inr (h1, pending)"
  shows "heap p' ! b1 = h1 ! b1 \<and> heap p' ! b2 = h1 ! b2
     \<and> mass (heap p' ! b1) = mass (heap p ! b1) \<and> mass (heap p' ! b2) = mass (heap p ! b2)
     \<and> radius (heap p' ! b1) = radius (heap p ! b1) \<and> radius (heap p' ! b2) = radius (heap p ! b2)
     \<and> color (heap p' ! b1) = color (heap p ! b1) \<and> color (heap p' ! b2) = color (heap p ! b2)
     \<and> (\<exists>n. n \<in> set (bodies p')
          \<and> mass (heap p' ! n) = mass (heap p ! b1) + mass (heap p ! b2)
          \<and> position (heap p' ! n) =
              ((fst (position (heap p ! b1)) * mass (heap p ! b1)
                 + fst (position (heap p ! b2)) * mass (heap p ! b2))
                 / (mass (heap p ! b1) + mass (heap p ! b2)),
               (snd (position (heap p ! b1)) * mass (heap p ! b1)
                 + snd (position (heap p ! b2)) * mass (heap p ! b2))
                 / (mass (heap p ! b1) + mass (heap p ! b2)))
          \<and> velocity (heap p' ! n) =
              ((fst (velocity (heap p ! b1)) * mass (heap p ! b1)
                 + fst (velocity (heap p ! b2)) * mass (heap p ! b2))
                 / (mass (heap p ! b1) + mass (heap p ! b2)),
               (snd (velocity (heap p ! b1)) * mass (heap p ! b1)
                 + snd (velocity (heap p ! b2)) * mass (heap p ! b2))
                 / (mass (heap p ! b1) + mass (heap p ! b2))))"
proof (rule merge_pair_outcome[OF assms(1,2,3)])
  fix n h1' pending'
  assume c: "collect (bodies p) (bodies p) (heap p) [] = Inr (h1', pending')"
    and n: "n \<in> set (bodies p')"
    and b: "heap p' ! n = merged_body ops (heap p ! b1) (heap p ! b2)"
    and at: "heap p' ! b1 = h1' ! b1" "heap p' ! b2 = h1' ! b2"
    and s: "static (h1' ! b1) = static (heap p ! b1)" "static (h1' ! b2) = static (heap p ! b2)"
  have h: "h1' = h1" using c assms(4) by simp
  have ex: "\<exists>n. n \<in> set (bodies p')
          \<and> mass (heap p' ! n) = mass (heap p ! b1) + mass (heap p ! b2)
          \<and> position (heap p' ! n) =
              ((fst (position (heap p ! b1)) * mass (heap p ! b1)
                 + fst (position (heap p ! b2)) * mass (heap p ! b2))
                 / (mass (heap p ! b1) + mass (heap p ! b2)),
               (snd (position (heap p ! b1)) * mass (heap p ! b1)
                 + snd (position (heap p ! b2)) * mass (heap p ! b2))
                 / (mass (heap p ! b1) + mass (heap p ! b2)))
          \<and> velocity (heap p' ! n) =
              ((fst (velocity (heap p ! b1)) * mass (heap p ! b1)
                 + fst (velocity (heap p ! b2)) * mass (heap p ! b2))
                 / (mass (heap p ! b1) + mass (heap p ! b2)),
               (snd (velocity (heap p ! b1)) * mass (heap p ! b1)
                 + snd (velocity (heap p ! b2)) * mass (heap p ! b2))
                 / (mass (heap p ! b1) + mass (heap p ! b2)))"
    by (rule exI[of _ n]) (simp add: n b merged_body_fields)
  show ?thesis
    using at ex static_fields[OF s(1)] static_fields[OF s(2)] by (simp add: h)
qed

text \<open>The theorem at the same pool: the pending update of the heavy body holds a
  changed mass, the body keeps mass 1000, the merged body has mass 1010.\<close>

theorem merged_bodies_not_committed_witness:
  "new_mass (snd (resolve_all unit_ops approach_h1 approach_pending empty_resolution) ! 0)
      = 100010 / 101
   \<and> mass ((approach_h1 @ [approach_merged]) ! 0) = 1000
   \<and> (approach_h1 @ [approach_merged]) ! 0 = approach_h1 ! 0
   \<and> (approach_h1 @ [approach_merged]) ! 1 = approach_h1 ! 1
   \<and> mass ((approach_h1 @ [approach_merged]) ! 2) = 1010"
proof -
  have mp: "(0, 1) \<in> set (merge_pairs unit_ops approach_pool)"
    by (simp add: approach_merge_pairs)
  have c: "collect (bodies approach_pool) (bodies approach_pool) (heap approach_pool) []
      = Inr (approach_h1, approach_pending)"
    by (simp only: approach_pool_eq SystemBodyPool.select_convs approach_collect)
  have vals: "(approach_h1 @ [approach_merged]) ! 2 = approach_merged"
    "(approach_h1 @ [approach_merged]) ! 0 = approach_h1 ! 0"
    "(approach_h1 @ [approach_merged]) ! 1 = approach_h1 ! 1"
    "mass (approach_h1 ! 0) = 1000"
    by (simp_all add: approach_h1_def approach_A_def SystemBody_init_def)
  have f: "mass approach_merged = 1010"
    "new_mass (approach_pending' ! 0) = 100010 / 101"
    by (simp_all add: approach_merged_def approach_pending'_def)
  have g1: "new_mass (snd (resolve_all unit_ops approach_h1 approach_pending empty_resolution) ! 0)
      = 100010 / 101"
    by (simp only: approach_resolve snd_conv f)
  have g2: "mass ((approach_h1 @ [approach_merged]) ! 0) = 1000
   \<and> (approach_h1 @ [approach_merged]) ! 0 = approach_h1 ! 0
   \<and> (approach_h1 @ [approach_merged]) ! 1 = approach_h1 ! 1
   \<and> mass ((approach_h1 @ [approach_merged]) ! 2) = 1010"
    by (simp add: f approach_h1_def approach_A_def SystemBody_init_def)
  have g: ?thesis using g1 g2 by blast
  show ?thesis
    using merged_bodies_not_committed[OF approach_pool_ok approach_tick mp c] g by blast
qed

subsection \<open>Absorption of a negligible body\<close>

text \<open>
  C2, as the code has it. In a tick of a well-formed pool that returns, for every pending
  pair \<open>(affected, affector)\<close> whose bias is below 0.1: \<open>affected\<close> is in
  \<open>bodies_to_remove\<close> and is not in the pool after the tick; handling the pair only
  marks \<open>affected\<close> and leaves its pending update as it is, and the loop goes on with
  the remaining pairs of \<open>affected\<close> (the \<open>continue\<close> of the source).
\<close>

theorem absorbed_body_removed:
  fixes ops :: "'c color_ops"
  assumes ok: "pool_ok p" and us: "update_system ops p = Inr p'"
    and c: "collect (bodies p) (bodies p) (heap p) [] = Inr (h1, pending)"
    and u: "u \<in> set pending" and a: "(affector, col_info) \<in> set (affectors u)"
    and b: "bias col_info < 1 / 10"
  shows "affected u \<notin> set (bodies p')
     \<and> affected u \<in> set (bodies_to_remove
           (fst (resolve_all ops h1 pending empty_resolution)))
     \<and> (\<forall>rs rest. fold (resolve_one ops h1) ((affector, col_info) # rest) (rs, u)
           = fold (resolve_one ops h1) rest
               (rs\<lparr>bodies_to_remove := List.insert (affected u) (bodies_to_remove rs)\<rparr>, u))"
proof (rule tick_phases[OF ok us])
  fix h1' pending' rs h2 bs
  assume c': "collect (bodies p) (bodies p) (heap p) [] = Inr (h1', pending')"
    and rs: "rs = fst (resolve_all ops h1' pending' empty_resolution)"
    and len2: "length h2 = length (heap p)"
    and rec: "\<forall>u\<in>set pending'. recorded (heap p) (bodies p) u"
    and bp: "bodies p' = bs @ [length h2 ..< length h2 + length (body_merge_info rs)]"
    and sb: "set bs = set (bodies p)
        - (set (bodies_to_remove rs) \<union> fst ` set (body_merge_info rs) \<union> snd ` set (body_merge_info rs))"
  have e: "h1' = h1" "pending' = pending" using c c' by simp_all
  have r: "recorded (heap p) (bodies p) u" using rec u e by simp
  hence ne: "affector \<noteq> affected u" and inb: "affected u \<in> set (bodies p)"
    using a by (auto simp: recorded_def)
  have rem: "affected u \<in> set (bodies_to_remove rs)"
    unfolding rs e
    by (rule resolve_all_absorbed[OF u a]) (use b ne in simp_all)
  have lt: "affected u < length h2"
    using inb ok len2 by (simp add: pool_ok_def)
  have out: "affected u \<notin> set (bodies p')"
    using bp sb rem lt by auto
  have step: "\<forall>rs rest. fold (resolve_one ops h1) ((affector, col_info) # rest) (rs, u)
           = fold (resolve_one ops h1) rest
               (rs\<lparr>bodies_to_remove := List.insert (affected u) (bodies_to_remove rs)\<rparr>, u)"
    using ne b by (simp add: resolve_one_def Let_def)
  show ?thesis using out rem step by (simp add: rs e)
qed

lemma approach_collect_pool:
  "collect (bodies approach_pool) (bodies approach_pool) (heap approach_pool) []
      = Inr (approach_h1, approach_pending)"
  by (simp only: approach_pool_eq SystemBodyPool.select_convs approach_collect)

text \<open>The theorem at the pool of the heavy and the approaching light body: the light
  body, affected by the heavy one, has bias 1/101.\<close>

theorem absorbed_body_removed_witness:
  "bias (snd (hd (affectors (approach_pending ! 1)))) < 1 / 10
   \<and> affected (approach_pending ! 1) = 1
   \<and> 1 \<in> set (bodies approach_pool)
   \<and> 1 \<notin> set (bodies (approach_pool\<lparr>heap := approach_h1 @ [approach_merged], bodies := [2]\<rparr>))"
proof -
  let ?u = "approach_pending ! 1"
  let ?ci = "\<lparr>granularity = 10, bias = 1 / 101, impulse = 50000 / 1313,
                  reflect_dir = (1351 / 1352, 0)\<rparr>"
  have u: "?u \<in> set approach_pending" by (simp add: approach_pending_def)
  have a: "(0, ?ci) \<in> set (affectors ?u)" by (simp add: approach_pending_def)
  have b: "bias ?ci < 1 / 10" by simp
  have g: ?thesis by (simp add: approach_pending_def approach_pool_eq)
  show ?thesis
    using absorbed_body_removed[OF approach_pool_ok approach_tick approach_collect_pool u a b] g
    by blast
qed

text \<open>C2 as stated fails: in that pool the light body has bias below 0.1 and is marked
  for removal, and its mass is in the merged body that the update of the heavy body
  claims: after the tick the pool holds one body, of mass 1000 + 10.\<close>

theorem absorbed_mass_reaches_merged_body:
  "bias (snd (hd (affectors (approach_pending ! 1)))) < 1 / 10
   \<and> affected (approach_pending ! 1) = 1
   \<and> update_system unit_ops approach_pool
       = Inr (approach_pool\<lparr>heap := approach_h1 @ [approach_merged], bodies := [2]\<rparr>)
   \<and> mass approach_merged = mass approach_A + mass approach_B"
  by (simp add: approach_tick)
     (simp add: approach_pending_def approach_merged_def approach_A_def approach_B_def
       SystemBody_init_def)

subsection \<open>The scenario of a heavy and a light body at rest\<close>

lemma scenario_pool_eq:
  "scenario_pool = \<lparr>heap = [scenario_A, scenario_B], bodies = [0, 1], center = (0, 0),
      heatmap = [], heatmap_active = True, heatmap_update_time = 0, heatmap_surface = None\<rparr>"
  by (simp add: scenario_pool_def add_body_def SystemBodyPool_init_def)

lemma scenario_AB:
  "calc_collision_bias (scenario_A\<lparr>acceleration := a\<rparr>) (scenario_B\<lparr>acceleration := b\<rparr>)
     = Inr None"
  by (simp add: collision_defs scenario_A_def scenario_B_def SystemBody_init_def sqrt_2704)

lemma scenario_BA:
  "calc_collision_bias (scenario_B\<lparr>acceleration := b\<rparr>) (scenario_A\<lparr>acceleration := a\<rparr>)
     = Inr None"
  by (simp add: collision_defs scenario_A_def scenario_B_def SystemBody_init_def sqrt_2704)

lemma scenario_gravity_AB:
  "apply_gravity [scenario_A\<lparr>acceleration := a\<rparr>, scenario_B\<lparr>acceleration := b\<rparr>] 0 (Suc 0)
     = Inr [scenario_A\<lparr>acceleration := (fst a + 66743 / 2704, snd a)\<rparr>,
            scenario_B\<lparr>acceleration := b\<rparr>]"
  by (simp add: apply_gravity_def calc_gravity_acceleration_def add_acceleration_def
      scenario_A_def scenario_B_def SystemBody_init_def GRAVITY_CONSTANT_def Let_def
      atan2_neg_x_axis)

lemma scenario_gravity_BA:
  "apply_gravity [scenario_A\<lparr>acceleration := a\<rparr>, scenario_B\<lparr>acceleration := b\<rparr>] (Suc 0) 0
     = Inr [scenario_A\<lparr>acceleration := a\<rparr>,
            scenario_B\<lparr>acceleration := (fst b - 6674300 / 2704, snd b)\<rparr>]"
  by (simp add: apply_gravity_def calc_gravity_acceleration_def add_acceleration_def
      scenario_A_def scenario_B_def SystemBody_init_def GRAVITY_CONSTANT_def Let_def
      atan2_pos_x_axis)

lemma scenario_collect:
  "collect [0, 1] [0, 1] [scenario_A, scenario_B] [] = Inr (scenario_h1, [])"
proof -
  have A: "scenario_A = scenario_A\<lparr>acceleration := (0, 0)\<rparr>"
    and B: "scenario_B = scenario_B\<lparr>acceleration := (0, 0)\<rparr>"
    by (simp_all add: scenario_A_def scenario_B_def SystemBody_init_def)
  have g0: "gather 0 [0, 1] [scenario_A, scenario_B] []
      = Inr ([scenario_A\<lparr>acceleration := (66743 / 2704, 0)\<rparr>, scenario_B], [])"
    apply (subst A, subst B)
    apply (simp add: scenario_gravity_AB scenario_AB)
    apply (simp add: scenario_B_def SystemBody_init_def)
    done
  have g1: "gather 1 [0, 1] [scenario_A\<lparr>acceleration := (66743 / 2704, 0)\<rparr>, scenario_B] []
      = Inr (scenario_h1, [])"
    apply (subst B)
    apply (simp add: scenario_gravity_BA scenario_BA scenario_h1_def)
    done
  show ?thesis
    apply (simp only: collect.simps g0 sum.case prod.case)
    apply (simp only: list.size if_False simp_thms less_irrefl)
    apply (simp only: collect.simps g1 sum.case prod.case)
    apply (simp only: list.size if_False simp_thms less_irrefl)
    done
qed

lemma scenario_tick:
  "update_system unit_ops scenario_pool = Inr (scenario_pool\<lparr>heap := scenario_h1\<rparr>)"
  apply (simp only: update_system_def scenario_pool_eq SystemBodyPool.select_convs
      scenario_collect sum.case prod.case)
  apply (simp add: empty_resolution_def apply_all_def)
  done

text \<open>
  C7, as the code has it. In the pool of A (mass 1000, radius 50, at the origin) and
  B (mass 10, radius 5, at (52, 0)), both at rest, the relative velocity is zero, so
  \<open>calc_collision_bias\<close> returns none for both orders; the tick marks no body for
  removal and makes no merge pair; after it the pool holds both A and B, with mass and
  radius unchanged (only their accelerations have changed, by gravity).
\<close>

theorem scenario_no_collision:
  "rel_vel scenario_A scenario_B = (0, 0)
   \<and> calc_collision_bias scenario_A scenario_B = Inr None
   \<and> calc_collision_bias scenario_B scenario_A = Inr None
   \<and> merge_pairs unit_ops scenario_pool = []
   \<and> update_system unit_ops scenario_pool = Inr (scenario_pool\<lparr>heap := scenario_h1\<rparr>)
   \<and> bodies (scenario_pool\<lparr>heap := scenario_h1\<rparr>) = [0, 1]
   \<and> mass (scenario_h1 ! 0) = 1000 \<and> radius (scenario_h1 ! 0) = 50
   \<and> mass (scenario_h1 ! 1) = 10 \<and> radius (scenario_h1 ! 1) = 5"
proof -
  have 1: "rel_vel scenario_A scenario_B = (0, 0)"
    by (simp add: rel_vel_def scenario_A_def scenario_B_def SystemBody_init_def)
  have 2: "calc_collision_bias scenario_A scenario_B = Inr None"
    using scenario_AB[of "(0, 0)" "(0, 0)"]
    by (simp add: scenario_A_def scenario_B_def SystemBody_init_def)
  have 3: "calc_collision_bias scenario_B scenario_A = Inr None"
    using scenario_BA[of "(0, 0)" "(0, 0)"]
    by (simp add: scenario_A_def scenario_B_def SystemBody_init_def)
  have 4: "merge_pairs unit_ops scenario_pool = []"
    by (simp only: merge_pairs_def scenario_pool_eq SystemBodyPool.select_convs
        scenario_collect sum.case prod.case)
       (simp add: empty_resolution_def)
  have 5: "bodies (scenario_pool\<lparr>heap := scenario_h1\<rparr>) = [0, 1]"
    by (simp add: scenario_pool_eq)
  have 6: "mass (scenario_h1 ! 0) = 1000 \<and> radius (scenario_h1 ! 0) = 50
   \<and> mass (scenario_h1 ! 1) = 10 \<and> radius (scenario_h1 ! 1) = 5"
    by (simp add: scenario_h1_def scenario_A_def scenario_B_def SystemBody_init_def)
  show ?thesis using 1 2 3 4 5 6 scenario_tick by blast
qed

text \<open>C7 as stated fails: after the tick B is still in the pool.\<close>

theorem scenario_B_stays:
  "update_system unit_ops scenario_pool = Inr (scenario_pool\<lparr>heap := scenario_h1\<rparr>)
   \<and> 1 \<in> set (bodies (scenario_pool\<lparr>heap := scenario_h1\<rparr>))"
  by (simp add: scenario_tick) (simp add: scenario_pool_eq)

subsection \<open>Ticks without a collision\<close>

lemma gravity_vector_static:
  assumes "static a = static a'" "static b = static b'"
  shows "gravity_vector a b = gravity_vector a' b'"
  using static_fields[OF assms(1)] static_fields[OF assms(2)]
  by (simp add: gravity_vector_def)

lemma apply_gravity_ok:
  assumes "position (h ! i) \<noteq> position (h ! j)"
  shows "apply_gravity h i j = Inr (h[i := add_acceleration (h ! i) (gravity_vector (h ! i) (h ! j))])"
proof -
  have "(fst (position (h ! j)) - fst (position (h ! i))) ^ 2
      + (snd (position (h ! j)) - snd (position (h ! i))) ^ 2 \<noteq> 0"
    using assms by (auto simp: sum_power2_eq_zero_iff prod_eq_iff)
  then show ?thesis
    by (simp add: apply_gravity_def calc_gravity_acceleration_def gravity_vector_def Let_def)
qed

lemma add_acceleration_zero: "add_acceleration b (0, 0) = b"
  by (simp add: add_acceleration_def)

lemma add_acceleration_twice:
  "add_acceleration (add_acceleration b v) w = add_acceleration b (fst v + fst w, snd v + snd w)"
  by (simp add: add_acceleration_def add.assoc)

lemma quiet_static:
  assumes "map static h1 = map static h" "i < length h" "j < length h"
  shows "quiet h1 i j = quiet h i j"
proof -
  have s: "static (h1 ! i) = static (h ! i)" "static (h1 ! j) = static (h ! j)"
    using assms by (auto intro: static_nth)
  show ?thesis
    unfolding quiet_def calc_collision_bias_static[OF s]
    using static_fields[OF s(1)] static_fields[OF s(2)] by simp
qed

lemma total_gravity_static:
  assumes "map static h1 = map static h" "i < length h" "\<forall>j\<in>set js. j < length h"
  shows "total_gravity h1 i js = total_gravity h i js"
proof -
  have "\<And>j. j \<in> set js \<Longrightarrow> gravity_vector (h1 ! i) (h1 ! j) = gravity_vector (h ! i) (h ! j)"
    using assms by (intro gravity_vector_static static_nth) auto
  then show ?thesis
    unfolding total_gravity_def
    by (auto intro!: arg_cong[where f = sum_list] map_cong)
qed

lemma total_gravity_Cons:
  "total_gravity h i (j # js)
     = (if j = i then total_gravity h i js
        else (fst (gravity_vector (h ! i) (h ! j)) + fst (total_gravity h i js),
              snd (gravity_vector (h ! i) (h ! j)) + snd (total_gravity h i js)))"
  by (simp add: total_gravity_def)


lemma gather_quiet:
  assumes "i < length h" "\<forall>j\<in>set js. j < length h \<and> (j \<noteq> i \<longrightarrow> quiet h i j)"
  shows "gather i js h affs = Inr (h[i := add_acceleration (h ! i) (total_gravity h i js)], affs)"
  using assms
proof (induction js arbitrary: h)
  case Nil
  then show ?case by (simp add: total_gravity_def add_acceleration_zero)
next
  case (Cons j js)
  show ?case
  proof (cases "i = j")
    case True
    have "gather i js h affs = Inr (h[i := add_acceleration (h ! i) (total_gravity h i js)], affs)"
      by (rule Cons.IH) (use Cons.prems in auto)
    then show ?thesis using True by (simp add: total_gravity_Cons)
  next
    case False
    let ?v = "gravity_vector (h ! i) (h ! j)"
    let ?h1 = "h[i := add_acceleration (h ! i) ?v]"
    have q: "quiet h i j" and jl: "j < length h" using Cons.prems False by auto
    have g: "apply_gravity h i j = Inr ?h1"
      by (rule apply_gravity_ok) (use q in \<open>simp add: quiet_def\<close>)
    have st: "map static ?h1 = map static h"
      by (rule map_static_update) (simp add: static_add_acceleration)
    have c: "calc_collision_bias (?h1 ! i) (?h1 ! j) = Inr None"
    proof -
      have "calc_collision_bias (?h1 ! i) (?h1 ! j) = calc_collision_bias (h ! i) (h ! j)"
        using Cons.prems(1) jl by (intro calc_collision_bias_static static_nth[OF st])
      then show ?thesis using q by (simp add: quiet_def)
    qed
    have ih: "gather i js ?h1 affs
        = Inr (?h1[i := add_acceleration (?h1 ! i) (total_gravity ?h1 i js)], affs)"
    proof (rule Cons.IH)
      show "i < length ?h1" using Cons.prems(1) by simp
      show "\<forall>k\<in>set js. k < length ?h1 \<and> (k \<noteq> i \<longrightarrow> quiet ?h1 i k)"
        using Cons.prems quiet_static[OF st] by auto
    qed
    have tg: "total_gravity ?h1 i js = total_gravity h i js"
      by (rule total_gravity_static[OF st]) (use Cons.prems in auto)
    have "?h1[i := add_acceleration (?h1 ! i) (total_gravity ?h1 i js)]
        = h[i := add_acceleration (h ! i) (total_gravity h i (j # js))]"
      using Cons.prems(1) False
      by (simp add: tg add_acceleration_twice total_gravity_Cons)
    then show ?thesis using False g c ih by simp
  qed
qed

lemma pulled_length: "length (pulled h all done) = length h"
  by (simp add: pulled_def)

lemma pulled_nth:
  "k < length h \<Longrightarrow> pulled h all done ! k
     = (if k \<in> set done then add_acceleration (h ! k) (total_gravity h k all) else h ! k)"
  by (simp add: pulled_def)

lemma pulled_Nil: "pulled h all [] = h"
  by (rule nth_equalityI) (simp_all add: pulled_length pulled_nth)

lemma quiet_pool_static:
  assumes "map static h1 = map static h" "\<forall>a\<in>set bs. a < length h"
  shows "quiet_pool h1 bs = quiet_pool h bs"
  unfolding quiet_pool_def using quiet_static[OF assms(1)] assms(2) by auto

lemma collect_quiet:
  assumes "distinct rest" "set rest \<subseteq> set all" "\<forall>a\<in>set all. a < length h"
    "quiet_pool h all"
  shows "collect all rest h pending = Inr (pulled h all rest, pending)"
  using assms
proof (induction rest arbitrary: h)
  case Nil
  then show ?case by (simp add: pulled_Nil)
next
  case (Cons i rest)
  let ?h1 = "h[i := add_acceleration (h ! i) (total_gravity h i all)]"
  have il: "i < length h" and ia: "i \<in> set all" using Cons.prems by auto
  have g: "gather i all h [] = Inr (?h1, [])"
    by (rule gather_quiet[OF il]) (use Cons.prems ia in \<open>auto simp: quiet_pool_def\<close>)
  have st: "map static ?h1 = map static h"
    by (rule map_static_update) (simp add: static_add_acceleration)
  have ih: "collect all rest ?h1 pending = Inr (pulled ?h1 all rest, pending)"
  proof (rule Cons.IH)
    show "distinct rest" "set rest \<subseteq> set all" using Cons.prems by auto
    show "\<forall>a\<in>set all. a < length ?h1" using Cons.prems by simp
    show "quiet_pool ?h1 all" using quiet_pool_static[OF st Cons.prems(3)] Cons.prems(4) by simp
  qed
  have eq: "pulled ?h1 all rest = pulled h all (i # rest)"
  proof (rule nth_equalityI)
    show "length (pulled ?h1 all rest) = length (pulled h all (i # rest))"
      by (simp add: pulled_length)
  next
    fix k assume "k < length (pulled ?h1 all rest)"
    hence kl: "k < length h" by (simp add: pulled_length)
    have ni: "i \<notin> set rest" using Cons.prems(1) by simp
    have tg: "total_gravity ?h1 k all = total_gravity h k all"
      by (rule total_gravity_static[OF st kl Cons.prems(3)])
    show "pulled ?h1 all rest ! k = pulled h all (i # rest) ! k"
      using kl ni il by (cases "k = i") (auto simp: pulled_nth tg)
  qed
  show ?case using g ih eq by simp
qed


lemma update_system_quiet:
  fixes ops :: "'c color_ops"
  assumes "pool_ok p" "quiet_pool (heap p) (bodies p)"
  shows "update_system ops p = Inr (p\<lparr>heap := pulled (heap p) (bodies p) (bodies p)\<rparr>)"
proof -
  have c: "collect (bodies p) (bodies p) (heap p) []
      = Inr (pulled (heap p) (bodies p) (bodies p), [])"
    by (rule collect_quiet) (use assms in \<open>auto simp: pool_ok_def\<close>)
  show ?thesis
    by (simp add: update_system_def c empty_resolution_def apply_all_def)
qed


lemma total_gravity_pair:
  "i \<noteq> j \<Longrightarrow> total_gravity h i [i, j] = gravity_vector (h ! i) (h ! j)"
  "i \<noteq> j \<Longrightarrow> total_gravity h j [i, j] = gravity_vector (h ! j) (h ! i)"
  by (simp_all add: total_gravity_def)

lemma pulled_pair:
  assumes "i \<noteq> j" "i < length h" "j < length h"
  shows "pulled h [i, j] [i, j]
     = h[i := add_acceleration (h ! i) (gravity_vector (h ! i) (h ! j)),
         j := add_acceleration (h ! j) (gravity_vector (h ! j) (h ! i))]"
proof (rule nth_equalityI)
  show "length (pulled h [i, j] [i, j])
      = length (h[i := add_acceleration (h ! i) (gravity_vector (h ! i) (h ! j)),
         j := add_acceleration (h ! j) (gravity_vector (h ! j) (h ! i))])"
    by (simp add: pulled_length)
next
  fix k assume "k < length (pulled h [i, j] [i, j])"
  hence kl: "k < length h" by (simp add: pulled_length)
  show "pulled h [i, j] [i, j] ! k
      = h[i := add_acceleration (h ! i) (gravity_vector (h ! i) (h ! j)),
         j := add_acceleration (h ! j) (gravity_vector (h ! j) (h ! i))] ! k"
    using kl assms by (auto simp: pulled_nth total_gravity_pair nth_list_update)
qed

text \<open>
  C3. For two bodies of a well-formed pool at different positions whose relative velocity
  has a normal component \<open>\<ge> 0\<close>: \<open>calc_collision_bias\<close> returns none, in both
  orders; in the tick neither body's pending update lists the other, so the pair changes
  no pending mass, radius, colour or acceleration; and when the pool holds just these two
  bodies the tick returns the pool with the two bodies changed by \<open>add_acceleration\<close>
  of their gravity alone (mass, radius and colour as before, both still in the pool).
\<close>

theorem separating_pair_no_response:
  fixes ops :: "'c color_ops"
  assumes ok: "pool_ok p" and i: "i \<in> set (bodies p)" and j: "j \<in> set (bodies p)"
    and pos: "position (heap p ! i) \<noteq> position (heap p ! j)"
    and sep: "0 \<le> rel_vel_n (heap p ! i) (heap p ! j)"
  shows "calc_collision_bias (heap p ! i) (heap p ! j) = Inr None
     \<and> calc_collision_bias (heap p ! j) (heap p ! i) = Inr None
     \<and> (\<forall>h1 pending u. collect (bodies p) (bodies p) (heap p) [] = Inr (h1, pending)
           \<longrightarrow> u \<in> set pending
           \<longrightarrow> (affected u = i \<longrightarrow> j \<notin> fst ` set (affectors u))
             \<and> (affected u = j \<longrightarrow> i \<notin> fst ` set (affectors u)))
     \<and> (bodies p = [i, j] \<longrightarrow>
          update_system ops p =
            Inr (p\<lparr>heap := (heap p)
                   [i := add_acceleration (heap p ! i)
                           (gravity_vector (heap p ! i) (heap p ! j)),
                    j := add_acceleration (heap p ! j)
                           (gravity_vector (heap p ! j) (heap p ! i))]\<rparr>))"
proof -
  have ij: "calc_collision_bias (heap p ! i) (heap p ! j) = Inr None"
    using pos sep by (simp add: calc_collision_bias_def rel_pos_mag_zero)
  have ji: "calc_collision_bias (heap p ! j) (heap p ! i) = Inr None"
    using pos sep rel_vel_n_sym[of "heap p ! j" "heap p ! i"]
    by (simp add: calc_collision_bias_def rel_pos_mag_zero)
  have bnd: "\<forall>a\<in>set (bodies p). a < length (heap p)"
    using ok by (simp add: pool_ok_def)
  have rec: "\<forall>h1 pending u. collect (bodies p) (bodies p) (heap p) [] = Inr (h1, pending)
           \<longrightarrow> u \<in> set pending
           \<longrightarrow> (affected u = i \<longrightarrow> j \<notin> fst ` set (affectors u))
             \<and> (affected u = j \<longrightarrow> i \<notin> fst ` set (affectors u))"
  proof (intro allI impI)
    fix h1 pending and u :: "'c UpdateInfo"
    assume c: "collect (bodies p) (bodies p) (heap p) [] = Inr (h1, pending)"
      and u: "u \<in> set pending"
    have r: "recorded (heap p) (bodies p) u"
      using collect_recorded[OF c bnd _ u] by simp
    show "(affected u = i \<longrightarrow> j \<notin> fst ` set (affectors u))
             \<and> (affected u = j \<longrightarrow> i \<notin> fst ` set (affectors u))"
      using r ij ji by (auto simp: recorded_def)
  qed
  have two: "bodies p = [i, j] \<longrightarrow>
          update_system ops p =
            Inr (p\<lparr>heap := (heap p)
                   [i := add_acceleration (heap p ! i)
                           (gravity_vector (heap p ! i) (heap p ! j)),
                    j := add_acceleration (heap p ! j)
                           (gravity_vector (heap p ! j) (heap p ! i))]\<rparr>)"
  proof
    assume b: "bodies p = [i, j]"
    have ne: "i \<noteq> j" using ok b by (simp add: pool_ok_def)
    have q: "quiet_pool (heap p) (bodies p)"
      using ij ji pos by (auto simp: quiet_pool_def quiet_def b)
    have l: "i < length (heap p)" "j < length (heap p)" using bnd i j by auto
    show "update_system ops p =
            Inr (p\<lparr>heap := (heap p)
                   [i := add_acceleration (heap p ! i)
                           (gravity_vector (heap p ! i) (heap p ! j)),
                    j := add_acceleration (heap p ! j)
                           (gravity_vector (heap p ! j) (heap p ! i))]\<rparr>)"
      using update_system_quiet[OF ok q, of ops] by (simp add: b pulled_pair[OF ne l])
  qed
  show ?thesis using ij ji rec two by blast
qed

lemma scenario_pool_ok: "pool_ok scenario_pool"
  by (simp add: pool_ok_def scenario_pool_eq)

text \<open>The theorem at the pool of the two bodies at rest.\<close>

theorem separating_pair_no_response_witness:
  "pool_ok scenario_pool \<and> 0 \<in> set (bodies scenario_pool) \<and> 1 \<in> set (bodies scenario_pool)
   \<and> position (heap scenario_pool ! 0) \<noteq> position (heap scenario_pool ! 1)
   \<and> 0 \<le> rel_vel_n (heap scenario_pool ! 0) (heap scenario_pool ! 1)
   \<and> calc_collision_bias (heap scenario_pool ! 0) (heap scenario_pool ! 1) = Inr None
   \<and> calc_collision_bias (heap scenario_pool ! 1) (heap scenario_pool ! 0) = Inr None"
proof -
  have h: "0 \<in> set (bodies scenario_pool)" "1 \<in> set (bodies scenario_pool)"
    "position (heap scenario_pool ! 0) \<noteq> position (heap scenario_pool ! 1)"
    "0 \<le> rel_vel_n (heap scenario_pool ! 0) (heap scenario_pool ! 1)"
    by (simp_all add: scenario_pool_eq scenario_A_def scenario_B_def SystemBody_init_def
        rel_vel_n_def rel_vel_def)
  show ?thesis
    using separating_pair_no_response[OF scenario_pool_ok h, of unit_ops] scenario_pool_ok h
    by blast
qed


subsection \<open>Three bodies that collide with each other, in two orders\<close>























section \<open>Properties of the field sampler\<close>

lemma py_range_one: "py_range 5 15 10 = [5]"
  by (simp add: py_range_def)

lemma dense_rows:
  "heatmap_rows dense_pool 1 dense_rect [5] = Inr [[66743 * 10 ^ 17]]"
  by (simp add: dense_rect_def HEATMAP_CELL_SIZE_def py_range_one SYSTEM_SCALE_def
      dense_pool_def add_body_def SystemBodyPool_init_def dense_body_def SystemBody_init_def
      calc_gravity_at_point_def GRAVITY_CONSTANT_def Let_def power2_eq_square)

lemma ln_dense_bounds: "0 < ln (66743 * 10 ^ 17 :: real)" "ln (66743 * 10 ^ 17 :: real) \<le> 198"
proof -
  show "0 < ln (66743 * 10 ^ 17 :: real)" by simp
  have "ln (10 :: real) \<le> 10 - 1" by (rule ln_le_minus_one) simp
  hence l10: "ln (10 :: real) \<le> 9" by simp
  have "ln (66743 * 10 ^ 17 :: real) \<le> ln (10 ^ 22)"
    by (subst ln_le_cancel_iff) simp_all
  also have "\<dots> = real 22 * ln (10 :: real)" by (rule ln_realpow)
  also have "\<dots> \<le> 22 * 9" using l10 by simp
  finally show "ln (66743 * 10 ^ 17 :: real) \<le> 198" by simp
qed

lemma dense_bounds: "accel_bounds [[66743 * 10 ^ 17]] = (66743 * 10 ^ 17, 10 ^ 20)"
  by (simp add: accel_bounds_def)

lemma rescale:
  "r \<noteq> 0 \<Longrightarrow> (l / r - m / r) / (M / r - m / r) = (l - m) / (M - (m :: real))"
  by (simp add: diff_divide_distrib[symmetric])

lemma trunc_dense:
  assumes "0 < L" "L \<le> 198"
  shows "int_trunc ((L - 10 ^ 20) / (66743 * 10 ^ 17 - 10 ^ 20) * 255) = - 3"
proof -
  let ?x = "(L - 10 ^ 20) / (66743 * 10 ^ 17 - 10 ^ 20) * 255"
  have d: "(66743 * 10 ^ 17 - 10 ^ 20 :: real) = 65743 * 10 ^ 17" by simp
  have lo: "- 4 < ?x" using assms(1) unfolding d by (simp add: field_simps)
  have hi: "?x \<le> - 3" using assms(2) unfolding d by (simp add: field_simps)
  have "\<lceil>?x\<rceil> = - 3" using lo hi by (simp add: ceiling_eq_iff)
  moreover have "\<not> 0 \<le> ?x" using hi by simp
  ultimately show ?thesis by (simp add: int_trunc_def)
qed

lemma dense_color:
  "int_trunc ((ln (66743 * 10 ^ 17 :: real) - 10 ^ 20) / (66743 * 10 ^ 17 - 10 ^ 20) * 255) = - 3"
  by (rule trunc_dense[OF ln_dense_bounds])

lemma dense_level:
  "(let data_range = ln (66743 * 10 ^ 17 / 10 ^ 20 :: real);
        accel_min = 10 ^ 20 / data_range;
        scaled_range = 66743 * 10 ^ 17 / data_range - accel_min
    in int_trunc ((ln (66743 * 10 ^ 17) / data_range - accel_min) / scaled_range * 255)) = - 3"
proof -
  have R: "ln (66743 * 10 ^ 17 / 10 ^ 20 :: real) \<noteq> 0" by simp
  show ?thesis by (simp only: Let_def rescale[OF R] dense_color)
qed

lemma dense_surface: "create_heatmap_surface [[66743 * 10 ^ 17]] = Inl ValueError"
proof -
  let ?R = "ln (66743 * 10 ^ 17 / 10 ^ 20 :: real)"
  have R: "?R \<noteq> 0" by simp
  have pos: "\<not> (66743 * 10 ^ 17 / 10 ^ 20 :: real) \<le> 0" by simp
  have ne: "(10 ^ 20 - 66743 * 10 ^ 17 :: real) \<noteq> 0" "(10 ^ 20 :: real) \<noteq> 0" by simp_all
  have sr: "(66743 * 10 ^ 17 / ?R - 10 ^ 20 / ?R :: real) \<noteq> 0"
    using R by (simp add: diff_divide_distrib[symmetric])
  have v: "\<not> (66743 * 10 ^ 17 :: real) \<le> 0" by simp
  have c: "int_trunc ((ln (66743 * 10 ^ 17) / ?R - 10 ^ 20 / ?R)
              / (66743 * 10 ^ 17 / ?R - 10 ^ 20 / ?R) * 255) = - 3"
    by (simp only: rescale[OF R] dense_color)
  have neg: "(- 3 :: int) < 0" by simp
  show ?thesis
    unfolding create_heatmap_surface_def Let_def dense_bounds fst_conv snd_conv
    by (simp only: ne pos R sr v c neg if_False if_True draw_rows.simps draw_row.simps sum.case
        simp_thms Let_def)
qed

lemma dense_update: "update_heatmap dense_pool 0 1 dense_rect = Inl ValueError"
proof -
  have a: "heatmap_active dense_pool" "\<not> heatmap_update_time dense_pool < HEATMAP_UPDATE_INTERVAL"
    by (simp_all add: dense_pool_def add_body_def SystemBodyPool_init_def
        HEATMAP_UPDATE_INTERVAL_def)
  have r: "py_range (HEATMAP_CELL_SIZE div 2) (rect_height dense_rect + HEATMAP_CELL_SIZE div 2)
      HEATMAP_CELL_SIZE = [5]"
    by (simp add: HEATMAP_CELL_SIZE_def dense_rect_def py_range_one)
  show ?thesis
    by (simp only: update_heatmap_def a r dense_rows dense_surface sum.case simp_thms if_False
        if_True)
qed

text \<open>
  C6 at a pool the code can receive: one body of mass 1 and radius \<open>1e-9\<close> at the
  origin, the heatmap active and due, a view of 10 by 10 pixels at scale 1. The grid of this
  refresh has one cell, so its minimum equals its maximum, \<open>6.6743e21\<close>. \<open>accel_min\<close>
  starts from \<open>1e20\<close> and stays there, the test \<open>accel_min - accel_max == 0\<close> fails
  and the cell is drawn: no logarithm is taken of a number that is not positive, the grey
  level \<open>int(value * 255)\<close> is -3, \<open>pygame.draw.rect\<close> raises \<open>ValueError\<close> and the
  refresh ends with that error instead of the blank surface.
\<close>

theorem dense_field_raises:
  "heatmap_rows dense_pool 1 dense_rect [5] = Inr [[66743 * 10 ^ 17]]
   \<and> accel_bounds [[66743 * 10 ^ 17]] = (66743 * 10 ^ 17, 10 ^ 20)
   \<and> (let data_range = ln (66743 * 10 ^ 17 / 10 ^ 20 :: real);
           accel_min = 10 ^ 20 / data_range;
           scaled_range = 66743 * 10 ^ 17 / data_range - accel_min
       in int_trunc ((ln (66743 * 10 ^ 17) / data_range - accel_min) / scaled_range * 255)) = - 3
   \<and> create_heatmap_surface [[66743 * 10 ^ 17]] = Inl ValueError
   \<and> update_heatmap dense_pool 0 1 dense_rect = Inl ValueError"
  using dense_rows dense_bounds dense_level dense_surface dense_update by blast

lemma fold_bounds_uniform:
  fixes v :: real
  assumes "\<forall>x\<in>set row. x = v"
  shows "fold (\<lambda>v b. (max (fst b) v, min (snd b) v)) row b
     = (if row = [] then b else (max (fst b) v, min (snd b) v))"
  using assms by (induction row arbitrary: b) auto

lemma accel_bounds_uniform:
  fixes v :: real
  assumes "\<forall>row\<in>set hm. \<forall>x\<in>set row. x = v"
  shows "fold (\<lambda>row. fold (\<lambda>v b. (max (fst b) v, min (snd b) v)) row) hm b
     = (if concat hm = [] then b else (max (fst b) v, min (snd b) v))"
  using assms
proof (induction hm arbitrary: b)
  case Nil
  then show ?case by simp
next
  case (Cons row hm)
  have r: "fold (\<lambda>v b. (max (fst b) v, min (snd b) v)) row b
     = (if row = [] then b else (max (fst b) v, min (snd b) v))"
    by (rule fold_bounds_uniform) (use Cons.prems in simp)
  have ih: "\<And>b. fold (\<lambda>row. fold (\<lambda>v b. (max (fst b) v, min (snd b) v)) row) hm b
     = (if concat hm = [] then b else (max (fst b) v, min (snd b) v))"
    by (rule Cons.IH) (use Cons.prems in simp)
  show ?case by (simp add: r ih)
qed

text \<open>Where the degenerate test works: a grid with at least one cell whose cells all hold
  the same value between 0 and \<open>1e20\<close> (0 for the empty pool) gives the blank surface.
  A grid without a cell takes the logarithm of 0.\<close>

lemma uniform_field_blank:
  assumes "\<forall>row\<in>set hm. \<forall>x\<in>set row. x = v" "concat hm \<noteq> []" "0 \<le> v" "v \<le> 10 ^ 20"
  shows "create_heatmap_surface hm = Inr []"
proof -
  have "accel_bounds hm = (v, v)"
    unfolding accel_bounds_def accel_bounds_uniform[OF assms(1)]
    using assms(2,3,4) by (simp add: max_def min_def del: concat_eq_Nil_conv)
  then show ?thesis by (simp add: create_heatmap_surface_def)
qed

lemma field_at_empty: "field_at h [] point 0 = Inr 0"
  by simp

lemma empty_grid_raises: "create_heatmap_surface [] = Inl ValueError"
  by (simp add: create_heatmap_surface_def accel_bounds_def)

end
